theory Spec2Isabelle
  imports Complex_Main
begin

section \<open>The activity database (src/main/tracker/database.ts, src/main/db/schema.ts)\<close>

text \<open>
  The two tables of \<^verbatim>\<open>schema.ts\<close> as records, one field per column, in the schema's
  order and under the schema's names (prefixed \<open>s_\<close> and \<open>a_\<close>, since both tables have
  an \<open>id\<close>, an \<open>appName\<close>, a \<open>startTime\<close> ...). Column \<open>created_at\<close> is filled by
  SQLite (\<^verbatim>\<open>CURRENT_TIMESTAMP\<close>) and read by no operation modelled here; it is left out.
  Row ids are natural numbers (SQLite row ids start at 1), times and durations are
  integers (milliseconds), nullable columns are options.
\<close>

record Session =
  s_id :: nat
  s_appName :: string
  s_category :: "string option"
  s_startTime :: int
  s_endTime :: int
  s_totalDuration :: int
  s_activityCount :: int

record Activity =
  a_id :: nat
  a_sessionId :: "nat option"
  a_appName :: string
  a_windowTitle :: "string option"
  a_url :: "string option"
  a_category :: "string option"
  a_projectName :: "string option"
  a_fileName :: "string option"
  a_fileType :: "string option"
  a_language :: "string option"
  a_domain :: "string option"
  a_startTime :: int
  a_endTime :: int
  a_duration :: int
  a_contextJson :: "string option"

text \<open>The argument object of \<^verbatim>\<open>insertActivity\<close>, with the source's field names.\<close>

record activity_input =
  app_name :: string
  window_title :: string
  url :: "string option"
  category :: string
  project_name :: "string option"
  file_name :: "string option"
  file_type :: "string option"
  language :: "string option"
  domain :: "string option"
  start_time :: int
  end_time :: int
  duration :: int
  context_json :: "string option"

text \<open>
  The state of an \<^verbatim>\<open>ActivityDatabase\<close> object: the two tables (rows in insertion
  order), the \<^verbatim>\<open>AUTOINCREMENT\<close> counters SQLite keeps for them (the largest row id
  handed out so far), and the two private fields that point at the open session.
\<close>

record ActivityDatabase =
  sessions :: "Session list"
  activities :: "Activity list"
  sessions_seq :: nat
  activities_seq :: nat
  currentSessionId :: "nat option"
  currentSessionAppName :: "string option"

definition emptyDatabase :: ActivityDatabase where
  "emptyDatabase =
     \<lparr>sessions = [], activities = [], sessions_seq = 0, activities_seq = 0,
      currentSessionId = None, currentSessionAppName = None\<rparr>"

text \<open>
  \<^verbatim>\<open>initDatabase\<close> on a store written before sessions existed: the sessions table is
  created empty, and \<^verbatim>\<open>ALTER TABLE activities ADD COLUMN session_id\<close> gives every old
  activity row a \<^verbatim>\<open>NULL\<close> session id. On a new store there are no old rows.
\<close>

definition initDatabase :: "Activity list \<Rightarrow> ActivityDatabase" where
  "initDatabase old =
     \<lparr>sessions = [], activities = map (\<lambda>a. a\<lparr>a_sessionId := None\<rparr>) old,
      sessions_seq = 0, activities_seq = foldr max (map a_id old) 0,
      currentSessionId = None, currentSessionAppName = None\<rparr>"

text \<open>\<^verbatim>\<open>createSession\<close>: insert a row and return its id.\<close>

definition createSession ::
  "string \<Rightarrow> string \<Rightarrow> int \<Rightarrow> ActivityDatabase \<Rightarrow> nat \<times> ActivityDatabase" where
  "createSession appName cat startTime db =
     (let new_id = Suc (sessions_seq db);
          row = \<lparr>s_id = new_id, s_appName = appName, s_category = Some cat,
                 s_startTime = startTime, s_endTime = startTime,
                 s_totalDuration = 0, s_activityCount = 0\<rparr>
      in (new_id, db\<lparr>sessions := sessions db @ [row], sessions_seq := new_id\<rparr>))"

text \<open>\<^verbatim>\<open>updateSession\<close>: one SQL \<^verbatim>\<open>UPDATE ... WHERE id = sessionId\<close>.\<close>

definition updateRow :: "int \<Rightarrow> int \<Rightarrow> Session \<Rightarrow> Session" where
  "updateRow endTime dur s =
     s\<lparr>s_endTime := endTime,
       s_totalDuration := s_totalDuration s + dur,
       s_activityCount := s_activityCount s + 1\<rparr>"

definition updateSession :: "nat \<Rightarrow> int \<Rightarrow> int \<Rightarrow> ActivityDatabase \<Rightarrow> ActivityDatabase" where
  "updateSession sessionId endTime dur db =
     db\<lparr>sessions :=
          map (\<lambda>s. if s_id s = sessionId then updateRow endTime dur s else s) (sessions db)\<rparr>"

text \<open>
  \<^verbatim>\<open>getOrCreateSession\<close>. The test \<^verbatim>\<open>this.currentSessionId && ...\<close> is JavaScript
  truthiness: \<^verbatim>\<open>null\<close> and \<^verbatim>\<open>0\<close> both fail it.
\<close>

definition openSessionFor :: "ActivityDatabase \<Rightarrow> string \<Rightarrow> nat option" where
  "openSessionFor db appName =
     (case currentSessionId db of
        None \<Rightarrow> None
      | Some i \<Rightarrow> if i \<noteq> 0 \<and> currentSessionAppName db = Some appName then Some i else None)"

definition getOrCreateSession ::
  "string \<Rightarrow> string \<Rightarrow> int \<Rightarrow> ActivityDatabase \<Rightarrow> nat \<times> ActivityDatabase" where
  "getOrCreateSession appName cat startTime db =
     (case openSessionFor db appName of
        Some i \<Rightarrow> (i, db)
      | None \<Rightarrow>
          (let (sessionId, db') = createSession appName cat startTime db
           in (sessionId,
               db'\<lparr>currentSessionId := Some sessionId, currentSessionAppName := Some appName\<rparr>)))"

definition closeCurrentSession :: "ActivityDatabase \<Rightarrow> ActivityDatabase" where
  "closeCurrentSession db = db\<lparr>currentSessionId := None, currentSessionAppName := None\<rparr>"

text \<open>\<^verbatim>\<open>insertActivity\<close>: session lookup, insert of the activity row, update of the totals.\<close>

definition activityRow :: "nat \<Rightarrow> nat \<Rightarrow> activity_input \<Rightarrow> Activity" where
  "activityRow new_id sessionId a =
     \<lparr>a_id = new_id, a_sessionId = Some sessionId, a_appName = app_name a,
      a_windowTitle = Some (window_title a), a_url = url a, a_category = Some (category a),
      a_projectName = project_name a, a_fileName = file_name a, a_fileType = file_type a,
      a_language = language a, a_domain = domain a, a_startTime = start_time a,
      a_endTime = end_time a, a_duration = duration a, a_contextJson = context_json a\<rparr>"

definition insertActivity :: "activity_input \<Rightarrow> ActivityDatabase \<Rightarrow> nat \<times> ActivityDatabase" where
  "insertActivity a db =
     (let (sessionId, db1) = getOrCreateSession (app_name a) (category a) (start_time a) db;
          new_id = Suc (activities_seq db1);
          db2 = db1\<lparr>activities := activities db1 @ [activityRow new_id sessionId a],
                    activities_seq := new_id\<rparr>;
          db3 = updateSession sessionId (end_time a) (duration a) db2
      in (new_id, db3))"

text \<open>
  The operations a caller can perform on the aggregator, and a run of them. A restart of
  the process builds a new object over the same tables: the pointer fields start as
  \<^verbatim>\<open>null\<close>, which is what \<^verbatim>\<open>closeCurrentSession\<close> leaves.
\<close>

datatype operation = InsertActivity activity_input | CloseCurrentSession

fun perform :: "ActivityDatabase \<Rightarrow> operation \<Rightarrow> ActivityDatabase" where
  "perform db (InsertActivity a) = snd (insertActivity a db)"
| "perform db CloseCurrentSession = closeCurrentSession db"

definition run :: "operation list \<Rightarrow> ActivityDatabase \<Rightarrow> ActivityDatabase" where
  "run ops db = foldl perform db ops"

text \<open>
  Where a run of samples of application \<open>a\<close> can start, told by the calls made so far:
  there are none (the process has just started), or the last one is
  \<^verbatim>\<open>closeCurrentSession\<close>, or the last one is a sample of another application.
\<close>

definition startsRun :: "operation list \<Rightarrow> string \<Rightarrow> bool" where
  "startsRun before a =
     (case rev before of
        [] \<Rightarrow> True
      | CloseCurrentSession # _ \<Rightarrow> True
      | InsertActivity x # _ \<Rightarrow> app_name x \<noteq> a)"

subsection \<open>Queries\<close>

text \<open>
  Every range query selects on \<^verbatim>\<open>start_time\<close> with both bounds inclusive.
  \<^verbatim>\<open>ORDER BY ... DESC\<close> is modelled by a stable sort on the negated key; the order
  SQLite gives to rows with equal keys is not fixed by the query, and no theorem below
  depends on it.
\<close>

definition inRange :: "int \<Rightarrow> int \<Rightarrow> int \<Rightarrow> bool" where
  "inRange startTime endTime t = (startTime \<le> t \<and> t \<le> endTime)"

definition getActivitiesInRange :: "int \<Rightarrow> int \<Rightarrow> ActivityDatabase \<Rightarrow> Activity list" where
  "getActivitiesInRange startTime endTime db =
     sort_key (\<lambda>a. - a_startTime a)
       (filter (\<lambda>a. inRange startTime endTime (a_startTime a)) (activities db))"

definition getTotalTrackedTime :: "int \<Rightarrow> int \<Rightarrow> ActivityDatabase \<Rightarrow> int" where
  "getTotalTrackedTime startTime endTime db =
     sum_list (map a_duration
       (filter (\<lambda>a. inRange startTime endTime (a_startTime a)) (activities db)))"

text \<open>
  \<^verbatim>\<open>getCategoryBreakdown\<close>: \<^verbatim>\<open>GROUP BY category\<close> with \<^verbatim>\<open>sum(duration)\<close> and
  \<^verbatim>\<open>count(*)\<close>, ordered by the sum, descending. The grouping column is nullable, and
  \<^verbatim>\<open>NULL\<close> is a group of its own. A result row has the three keys of the \<^verbatim>\<open>select\<close>:
  \<^verbatim>\<open>category\<close>, \<^verbatim>\<open>total_duration\<close> and \<^verbatim>\<open>session_count\<close> (the first is \<open>row_category\<close>
  here, \<open>category\<close> being a field of the argument of \<^verbatim>\<open>insertActivity\<close> already).
\<close>

record CategoryRow =
  row_category :: "string option"
  total_duration :: int
  session_count :: int

fun groupKeys :: "'a list \<Rightarrow> 'a list" where
  "groupKeys [] = []"
| "groupKeys (k # ks) = k # filter (\<lambda>k'. k' \<noteq> k) (groupKeys ks)"

definition categoryGroup :: "Activity list \<Rightarrow> string option \<Rightarrow> CategoryRow" where
  "categoryGroup rows k =
     (let members = filter (\<lambda>a. a_category a = k) rows
      in \<lparr>row_category = k, total_duration = sum_list (map a_duration members),
          session_count = int (length members)\<rparr>)"

definition getCategoryBreakdown :: "int \<Rightarrow> int \<Rightarrow> ActivityDatabase \<Rightarrow> CategoryRow list" where
  "getCategoryBreakdown startTime endTime db =
     (let rows = filter (\<lambda>a. inRange startTime endTime (a_startTime a)) (activities db)
      in sort_key (\<lambda>r. - total_duration r)
           (map (categoryGroup rows) (groupKeys (map a_category rows))))"

text \<open>
  \<^verbatim>\<open>getSessionsWithActivities\<close>. The JavaScript \<^verbatim>\<open>Map\<close> from session id to its
  activities is a map to lists; an activity with a \<^verbatim>\<open>null\<close> session id goes under
  key 0 (\<^verbatim>\<open>activity.sessionId ?? 0\<close>). \<^verbatim>\<open>mapToRecord\<close> only renames the fields of a
  row and is the identity here.
\<close>

record SessionWithActivities = Session +
  sw_activities :: "Activity list"

definition bucketKey :: "Activity \<Rightarrow> nat" where
  "bucketKey activity = (case a_sessionId activity of None \<Rightarrow> 0 | Some i \<Rightarrow> i)"

definition groupActivity ::
  "(nat \<rightharpoonup> Activity list) \<Rightarrow> Activity \<Rightarrow> (nat \<rightharpoonup> Activity list)" where
  "groupActivity m activity =
     (let sessionId = bucketKey activity;
          sessionActivities = (case m sessionId of None \<Rightarrow> [] | Some xs \<Rightarrow> xs)
      in m(sessionId \<mapsto> sessionActivities @ [activity]))"

definition getSessionsWithActivities ::
  "int \<Rightarrow> int \<Rightarrow> ActivityDatabase \<Rightarrow> SessionWithActivities list" where
  "getSessionsWithActivities startTime endTime db =
     (let sessionRows = sort_key (\<lambda>s. - s_startTime s)
            (filter (\<lambda>s. inRange startTime endTime (s_startTime s)) (sessions db))
      in if sessionRows = [] then []
         else
           (let activityRows = getActivitiesInRange startTime endTime db;
                activitiesBySession = foldl groupActivity Map.empty activityRows
            in map (\<lambda>session.
                     \<lparr>s_id = s_id session, s_appName = s_appName session,
                      s_category = s_category session, s_startTime = s_startTime session,
                      s_endTime = s_endTime session,
                      s_totalDuration = s_totalDuration session,
                      s_activityCount = s_activityCount session,
                      sw_activities =
                        (case activitiesBySession (s_id session) of
                           None \<Rightarrow> [] | Some xs \<Rightarrow> xs)\<rparr>)
                 sessionRows))"

subsection \<open>Invariants of the tables\<close>

definition activitiesOf :: "ActivityDatabase \<Rightarrow> nat \<Rightarrow> Activity list" where
  "activitiesOf db i = filter (\<lambda>a. a_sessionId a = Some i) (activities db)"

definition totalsOf :: "ActivityDatabase \<Rightarrow> Session \<Rightarrow> bool" where
  "totalsOf db s =
     (s_totalDuration s = sum_list (map a_duration (activitiesOf db (s_id s))) \<and>
      s_activityCount s = int (length (activitiesOf db (s_id s))))"

definition sessionTotalsHold :: "ActivityDatabase \<Rightarrow> bool" where
  "sessionTotalsHold db = (\<forall>s \<in> set (sessions db). totalsOf db s)"

text \<open>
  What holds of the tables besides the totals: session ids are those SQLite has handed
  out (from 1 up to the counter, none twice), an activity refers to such an id or to
  none (a row from before the \<^verbatim>\<open>session_id\<close> column existed), and so does the pointer.
\<close>

definition idsWellFormed :: "ActivityDatabase \<Rightarrow> bool" where
  "idsWellFormed db =
     (distinct (map s_id (sessions db)) \<and>
      (\<forall>s \<in> set (sessions db). 1 \<le> s_id s \<and> s_id s \<le> sessions_seq db) \<and>
      (\<forall>a \<in> set (activities db). \<forall>i. a_sessionId a = Some i \<longrightarrow> i \<le> sessions_seq db) \<and>
      (\<forall>i. currentSessionId db = Some i \<longrightarrow> i \<le> sessions_seq db))"

definition databaseInvariant :: "ActivityDatabase \<Rightarrow> bool" where
  "databaseInvariant db = (idsWellFormed db \<and> sessionTotalsHold db)"

definition startBeforeEnd :: "ActivityDatabase \<Rightarrow> bool" where
  "startBeforeEnd db = (\<forall>s \<in> set (sessions db). s_startTime s \<le> s_endTime s)"

text \<open>The rows that \<^verbatim>\<open>insertActivity a\<close> is going to update: those of the session it picks.\<close>

definition sessionOfSample :: "activity_input \<Rightarrow> ActivityDatabase \<Rightarrow> Session list" where
  "sessionOfSample a db =
     (let (sessionId, db1) = getOrCreateSession (app_name a) (category a) (start_time a) db
      in filter (\<lambda>s. s_id s = sessionId) (sessions db1))"

section \<open>JavaScript numbers and strings, as far as \<^verbatim>\<open>notifications.ts\<close> uses them\<close>

text \<open>
  Durations, targets and timestamps are integers, and JavaScript holds them exactly as
  long as they are safe integers (below \<open>2\<^sup>5\<^sup>3\<close> in magnitude); this is assumed of
  every integer below. A division is different: \<^verbatim>\<open>a / b\<close> is the binary64 number
  nearest to the quotient, and \<^verbatim>\<open>toFixed\<close> and \<^verbatim>\<open>Math.round\<close> then work on that
  number, not on the quotient. A finite binary64 number is kept here as a pair
  \<open>(m, e)\<close> of integers that stands for \<open>m \<times> 2\<^sup>e\<close>.
\<close>

type_synonym double = "int \<times> int"

function bitLength :: "int \<Rightarrow> nat" where
  "bitLength n = (if n \<le> 0 then 0 else Suc (bitLength (n div 2)))"
  by pat_completeness auto
termination
  by (relation "measure nat") auto

declare bitLength.simps [simp del]

text \<open>The integer nearest to \<open>a / b\<close>, the even one of two that are equally near.\<close>

definition roundHalfEven :: "int \<Rightarrow> int \<Rightarrow> int" where
  "roundHalfEven a b =
     (let q = a div b; r = a mod b
      in if 2 * r < b then q
         else if b < 2 * r then q + 1
         else if even q then q else q + 1)"

text \<open>
  The exponent of the leading bit of \<open>p / q\<close> for positive \<open>p\<close> and \<open>q\<close>: the \<open>E\<close> with
  \<open>2\<^sup>E \<le> p / q < 2\<^sup>E\<^sup>+\<^sup>1\<close>. It is the difference of the bit lengths or one less.
\<close>

definition leadingExponent :: "int \<Rightarrow> int \<Rightarrow> int" where
  "leadingExponent p q =
     (let k = int (bitLength p) - int (bitLength q)
      in if (if 0 \<le> k then q * 2 ^ nat k \<le> p else q \<le> p * 2 ^ nat (- k))
         then k else k - 1)"

text \<open>
  The binary64 number nearest to \<open>p / q\<close> for \<open>p \<ge> 0\<close> and \<open>q > 0\<close>: the mantissa has
  53 bits (fewer below \<open>2\<^sup>-\<^sup>1\<^sup>0\<^sup>2\<^sup>2\<close>), so the last bit kept stands for \<open>2\<^sup>u\<close> with
  \<open>u\<close> as below, and it is rounded half to even. Quotients of \<open>2\<^sup>1\<^sup>0\<^sup>2\<^sup>4\<close> and more,
  which JavaScript turns into \<^verbatim>\<open>Infinity\<close>, do not occur for safe integers.
\<close>

definition nearestDouble :: "int \<Rightarrow> int \<Rightarrow> double" where
  "nearestDouble p q =
     (if p = 0 then (0, 0)
      else
        (let u = max (leadingExponent p q - 52) (- 1074);
             m = (if 0 \<le> u then roundHalfEven p (q * 2 ^ nat u)
                  else roundHalfEven (p * 2 ^ nat (- u)) q)
         in (m, u)))"

text \<open>\<^verbatim>\<open>a / b\<close> for integers \<open>a\<close> and \<open>b \<noteq> 0\<close>; no caller divides by 0.\<close>

definition jsDivide :: "int \<Rightarrow> int \<Rightarrow> double" where
  "jsDivide a b =
     (let (m, u) = nearestDouble \<bar>a\<bar> \<bar>b\<bar> in (sgn a * sgn b * m, u))"

text \<open>\<^verbatim>\<open>x * c\<close> for a binary64 number \<open>x\<close> and an integer \<open>c\<close>.\<close>

definition jsTimes :: "double \<Rightarrow> int \<Rightarrow> double" where
  "jsTimes x c =
     (let (m, e) = x;
          (m', u) = (if 0 \<le> e then nearestDouble (\<bar>m * c\<bar> * 2 ^ nat e) 1
                     else nearestDouble \<bar>m * c\<bar> (2 ^ nat (- e)))
      in (sgn (m * c) * m', u))"

text \<open>\<^verbatim>\<open>a % b\<close> on integers: the remainder has the sign of the dividend.\<close>

definition jsRemainder :: "int \<Rightarrow> int \<Rightarrow> int" where
  "jsRemainder a b = sgn a * (\<bar>a\<bar> mod \<bar>b\<bar>)"

definition mathFloor :: "double \<Rightarrow> int" where
  "mathFloor x = (let (m, e) = x in if 0 \<le> e then m * 2 ^ nat e else m div 2 ^ nat (- e))"

text \<open>\<^verbatim>\<open>Math.round\<close>: the nearest integer, the larger one of two that are equally near.\<close>

definition mathRound :: "double \<Rightarrow> int" where
  "mathRound x =
     (let (m, e) = x
      in if 0 \<le> e then m * 2 ^ nat e
         else (2 * m + 2 ^ nat (- e)) div (2 * 2 ^ nat (- e)))"

text \<open>Decimal digits of an integer (\<open>decimalNat\<close> for one that is not negative), as a template
  literal prints an integral number.\<close>

function decimalNat :: "int \<Rightarrow> string" where
  "decimalNat n =
     (if n < 10 then [''0123456789'' ! nat n]
      else decimalNat (n div 10) @ [''0123456789'' ! nat (n mod 10)])"
  by pat_completeness auto
termination
  by (relation "measure nat") auto

declare decimalNat.simps [simp del]

definition decimalInt :: "int \<Rightarrow> string" where
  "decimalInt i = (if i < 0 then ''-'' @ decimalNat (- i) else decimalNat i)"

text \<open>
  \<^verbatim>\<open>x.toFixed(1)\<close> for \<open>\<bar>x\<bar> < 10\<^sup>2\<^sup>1\<close>: with \<open>n\<close> the integer for which \<open>n / 10\<close> is
  nearest to \<open>x\<close> (the larger of two), the digits of \<open>n\<close> with a point before the last.
\<close>

definition toFixed1 :: "double \<Rightarrow> string" where
  "toFixed1 x =
     (let (m, e) = x;
          a = \<bar>m\<bar>;
          n = (if 0 \<le> e then 10 * a * 2 ^ nat e
               else (20 * a + 2 ^ nat (- e)) div (2 * 2 ^ nat (- e)))
      in (if m < 0 then ''-'' else '''') @
         decimalNat (n div 10) @ ''.'' @ decimalNat (n mod 10))"

text \<open>\<^verbatim>\<open>s.replace(/\.0$/, "")\<close> and \<^verbatim>\<open>s.replace(/_/g, " ")\<close>.\<close>

definition stripDotZero :: "string \<Rightarrow> string" where
  "stripDotZero s =
     (if 2 \<le> length s \<and> drop (length s - 2) s = ''.0'' then take (length s - 2) s else s)"

definition underscoresToSpaces :: "string \<Rightarrow> string" where
  "underscoresToSpaces s = map (\<lambda>c. if c = CHR ''_'' then CHR '' '' else c) s"

text \<open>
  \<^verbatim>\<open>parseInt(s, 10)\<close>: leading white space is skipped, one sign is read, then the
  longest run of decimal digits; \<^verbatim>\<open>NaN\<close> (here \<open>None\<close>) when there is no digit.
  Strings are byte strings here, so the white space skipped is the ASCII one.
\<close>

definition isWhiteSpace :: "char \<Rightarrow> bool" where
  "isWhiteSpace c = (c \<in> set [CHR 0x09, CHR 0x0A, CHR 0x0B, CHR 0x0C, CHR 0x0D, CHR '' ''])"

definition isDigit :: "char \<Rightarrow> bool" where
  "isDigit c = (c \<in> set ''0123456789'')"

definition digitValue :: "char \<Rightarrow> int" where
  "digitValue c = int (length (takeWhile (\<lambda>d. d \<noteq> c) ''0123456789''))"

definition parseInt :: "string \<Rightarrow> int option" where
  "parseInt s =
     (let S = dropWhile isWhiteSpace s;
          sign = (if take 1 S = ''-'' then - 1 else 1);
          S' = (if take 1 S = ''-'' \<or> take 1 S = ''+'' then drop 1 S else S);
          Z = takeWhile isDigit S'
      in if Z = [] then None
         else Some (sign * foldl (\<lambda>acc c. 10 * acc + digitValue c) 0 Z))"

section \<open>The notification manager (src/main/notifications.ts)\<close>

subsection \<open>Settings\<close>

text \<open>
  Modelled from the spec: the key-value store behind \<^verbatim>\<open>db.getSetting\<close> and
  \<^verbatim>\<open>db.setSetting\<close>, two methods that \<^verbatim>\<open>notifications.ts\<close> calls and that the
  \<^verbatim>\<open>database.ts\<close> at hand does not have. The spec describes it as string-keyed settings
  and small JSON documents with synchronous get and set. The flags and numbers are kept
  as the strings stored (\<open>plain\<close>). The two JSON documents are kept as what
  \<^verbatim>\<open>JSON.parse\<close> makes of the stored text, so that \<^verbatim>\<open>JSON.parse\<close> of a
  \<^verbatim>\<open>JSON.stringify\<close> is the value written: \<open>None\<close> for an absent key or an empty
  string (both fail \<^verbatim>\<open>if (!stored)\<close>), \<open>Some (Parsed v)\<close> for a document \<open>v\<close> as
  described below, \<open>Some Other\<close> for a text that does not parse or parses to a value of
  another kind.

  Under \<^verbatim>\<open>daily_goals\<close> a document is a JSON array, and \<open>Other\<close> is what fails
  \<^verbatim>\<open>Array.isArray\<close> or does not parse. An element of the array is \<^verbatim>\<open>null\<close>, or a value
  of which the code reads the properties \<^verbatim>\<open>categoryName\<close> and \<^verbatim>\<open>targetMs\<close>: a string
  and an integer where the value has them, \<^verbatim>\<open>undefined\<close> (here \<open>None\<close>) where it does
  not. Elements with a \<^verbatim>\<open>categoryName\<close> that is not a string or a \<^verbatim>\<open>targetMs\<close> that is
  not an integer are outside the model. \<open>goalElement\<close> is the element a well-formed goal
  is.

  Under \<^verbatim>\<open>goals_notified_today\<close> a document is an object with a string \<^verbatim>\<open>date\<close> and an
  array \<^verbatim>\<open>goals\<close> of strings and \<^verbatim>\<open>null\<close>s (here \<open>None\<close>; \<^verbatim>\<open>JSON.stringify\<close> writes
  \<^verbatim>\<open>null\<close> for an \<^verbatim>\<open>undefined\<close> member of an array); \<open>Other\<close> is every text from which
  \<^verbatim>\<open>getNotifiedGoalsToday\<close> returns the empty set whatever the day.
\<close>

datatype 'a document = Other | Parsed 'a

record DailyGoal =
  categoryName :: string
  targetMs :: int

datatype goal_element = NullElement | Element "string option" "int option"

definition goalElement :: "DailyGoal \<Rightarrow> goal_element" where
  "goalElement goal = Element (Some (categoryName goal)) (Some (targetMs goal))"

text \<open>\<^verbatim>\<open>g.categoryName\<close> where \<open>g\<close> is not \<^verbatim>\<open>null\<close>.\<close>

definition elementName :: "goal_element \<Rightarrow> string option" where
  "elementName g = (case g of NullElement \<Rightarrow> None | Element name target \<Rightarrow> name)"

record NotifiedLedger =
  ledger_date :: string
  ledger_goals :: "string option list"

record Settings =
  plain :: "string \<rightharpoonup> string"
  daily_goals :: "goal_element list document option"
  goals_notified_today :: "NotifiedLedger document option"

text \<open>The category names of the goal array stored, in order: one for each element that
  has a \<^verbatim>\<open>categoryName\<close>.\<close>

definition goalNames :: "Settings \<Rightarrow> string list" where
  "goalNames st =
     (case daily_goals st of
        None \<Rightarrow> []
      | Some Other \<Rightarrow> []
      | Some (Parsed goals) \<Rightarrow> List.map_filter elementName goals)"

text \<open>
  The clock, read once per call: \<^verbatim>\<open>Date.now()\<close>, \<^verbatim>\<open>new Date().toDateString()\<close> and
  the local midnight \<^verbatim>\<open>setHours(0, 0, 0, 0)\<close> gives.
\<close>

record Clock =
  now :: int
  today :: string
  startOfToday :: int

record Notification =
  title :: string
  body :: string

text \<open>The private fields of a \<^verbatim>\<open>NotificationManager\<close>. A timer handle is kept as the
  delay its task was armed with.\<close>

record NotificationManager =
  breakTimer :: "int option"
  lastBreakNotification :: int
  dailySummaryTimer :: "int option"
  dailySummaryShownToday :: bool
  lastSummaryDate :: "string option"

definition isEnabled :: "Settings \<Rightarrow> bool" where
  "isEnabled st = (plain st ''notifications_enabled'' \<noteq> Some ''false'')"

definition isBreakRemindersEnabled :: "Settings \<Rightarrow> bool" where
  "isBreakRemindersEnabled st =
     (if \<not> isEnabled st then False
      else plain st ''break_reminders_enabled'' \<noteq> Some ''false'')"

definition isDailySummaryEnabled :: "Settings \<Rightarrow> bool" where
  "isDailySummaryEnabled st =
     (if \<not> isEnabled st then False
      else plain st ''daily_summary_enabled'' \<noteq> Some ''false'')"

text \<open>\<^verbatim>\<open>val ? parseInt(val, 10) : d\<close>: an absent key and an empty string take the default.\<close>

definition parseSetting :: "string option \<Rightarrow> int \<Rightarrow> int option" where
  "parseSetting val d =
     (case val of None \<Rightarrow> Some d | Some v \<Rightarrow> if v = [] then Some d else parseInt v)"

definition getBreakIntervalMs :: "Settings \<Rightarrow> int" where
  "getBreakIntervalMs st =
     (case parseSetting (plain st ''break_interval_minutes'') 60 of
        None \<Rightarrow> 60
      | Some minutes \<Rightarrow> if minutes < 1 then 60 else minutes) * 60000"

definition getDailySummaryHour :: "Settings \<Rightarrow> int" where
  "getDailySummaryHour st =
     (case parseSetting (plain st ''daily_summary_hour'') 18 of
        None \<Rightarrow> 18
      | Some hour \<Rightarrow> if hour < 0 \<or> 23 < hour then 18 else hour)"

subsection \<open>Goals\<close>

text \<open>
  \<^verbatim>\<open>notifications.ts\<close> reads the property \<^verbatim>\<open>category_name\<close> of a breakdown row. The
  rows \<^verbatim>\<open>getCategoryBreakdown\<close> returns have the keys \<^verbatim>\<open>category\<close>,
  \<^verbatim>\<open>total_duration\<close> and \<^verbatim>\<open>session_count\<close> and no other, so the read gives
  \<^verbatim>\<open>undefined\<close> on every row: \<open>None\<close>, as for a property an element of the goal list
  does not have.
\<close>

definition category_name :: "CategoryRow \<Rightarrow> string option" where
  "category_name c = None"

text \<open>A JavaScript \<^verbatim>\<open>Set\<close>: its members in insertion order, none twice.\<close>

definition setAdd :: "'a \<Rightarrow> 'a list \<Rightarrow> 'a list" where
  "setAdd x xs = (if x \<in> set xs then xs else xs @ [x])"

definition newSet :: "'a list \<Rightarrow> 'a list" where
  "newSet xs = foldl (\<lambda>s x. setAdd x s) [] xs"

definition getNotifiedGoalsToday :: "Clock \<Rightarrow> Settings \<Rightarrow> string option list" where
  "getNotifiedGoalsToday clock st =
     (case goals_notified_today st of
        None \<Rightarrow> []
      | Some Other \<Rightarrow> []
      | Some (Parsed parsed) \<Rightarrow>
          if ledger_date parsed = today clock then newSet (ledger_goals parsed) else [])"

text \<open>
  \<^verbatim>\<open>markGoalNotified\<close>, called with \<^verbatim>\<open>goal.categoryName\<close>: a string, or \<^verbatim>\<open>undefined\<close>,
  which no set read from the store contains and which is written back as \<^verbatim>\<open>null\<close>.
\<close>

definition markGoalNotified :: "Clock \<Rightarrow> string option \<Rightarrow> Settings \<Rightarrow> Settings" where
  "markGoalNotified clock name st =
     (let notified = (case name of
                        None \<Rightarrow> getNotifiedGoalsToday clock st @ [None]
                      | Some n \<Rightarrow> setAdd (Some n) (getNotifiedGoalsToday clock st))
      in st\<lparr>goals_notified_today :=
              Some (Parsed \<lparr>ledger_date = today clock, ledger_goals = notified\<rparr>)\<rparr>)"

definition hoursText :: "int \<Rightarrow> string" where
  "hoursText ms = stripDotZero (toFixed1 (jsDivide ms 3600000))"

definition goalNotification :: "DailyGoal \<Rightarrow> Notification" where
  "goalNotification goal =
     \<lparr>title = ''Goal reached!'',
      body = ''You hit your '' @ underscoresToSpaces (categoryName goal) @ '' goal of '' @
             hoursText (targetMs goal) @ ''h.''\<rparr>"

text \<open>
  \<^verbatim>\<open>breakdown.find((c) => c.category_name === goal.categoryName)?.total_duration ?? 0\<close>;
  \<^verbatim>\<open>===\<close> holds between two strings that are equal and between \<^verbatim>\<open>undefined\<close> and
  \<^verbatim>\<open>undefined\<close>.
\<close>

definition currentMs :: "CategoryRow list \<Rightarrow> string option \<Rightarrow> int" where
  "currentMs breakdown name =
     (case find (\<lambda>c. category_name c = name) breakdown of
        None \<Rightarrow> 0
      | Some c \<Rightarrow> total_duration c)"

datatype js_error = TypeError

text \<open>
  The loop of \<^verbatim>\<open>checkGoals\<close> over the elements of the array. Its state is the settings
  and the goals whose notification has been shown so far; \<open>notifiedToday\<close> is the set
  read before the loop. A \<^verbatim>\<open>null\<close> element makes \<^verbatim>\<open>goal.categoryName\<close> throw; an
  element without \<^verbatim>\<open>categoryName\<close> that passes the comparison has been marked when
  \<^verbatim>\<open>goal.categoryName.replace\<close> throws; an element without \<^verbatim>\<open>targetMs\<close> fails the
  comparison (\<^verbatim>\<open>currentMs >= undefined\<close> is false). A throw ends the loop and the call,
  and the error carries the state reached.
\<close>

fun goalLoop ::
  "Clock \<Rightarrow> CategoryRow list \<Rightarrow> string option list \<Rightarrow> goal_element list \<Rightarrow>
   Settings \<times> DailyGoal list \<Rightarrow>
   (js_error \<times> Settings \<times> DailyGoal list) + (Settings \<times> DailyGoal list)" where
  "goalLoop clock breakdown notifiedToday [] acc = Inr acc"
| "goalLoop clock breakdown notifiedToday (NullElement # rest) acc = Inl (TypeError, acc)"
| "goalLoop clock breakdown notifiedToday (Element name target # rest) acc =
     (if (case name of None \<Rightarrow> False | Some n \<Rightarrow> Some n \<in> set notifiedToday)
      then goalLoop clock breakdown notifiedToday rest acc
      else
        (case target of
           None \<Rightarrow> goalLoop clock breakdown notifiedToday rest acc
         | Some t \<Rightarrow>
             if t \<le> currentMs breakdown name
             then
               (let st' = markGoalNotified clock name (fst acc)
                in case name of
                     None \<Rightarrow> Inl (TypeError, st', snd acc)
                   | Some n \<Rightarrow>
                       goalLoop clock breakdown notifiedToday rest
                         (st', snd acc @ [\<lparr>categoryName = n, targetMs = t\<rparr>]))
             else goalLoop clock breakdown notifiedToday rest acc))"

text \<open>
  \<^verbatim>\<open>checkGoals\<close>, in two layers: \<open>checkGoalsFired\<close> ends with the settings and the goals
  that have fired, in order, and \<open>checkGoals\<close> with the notifications shown for them.
\<close>

definition checkGoalsFired ::
  "Clock \<Rightarrow> ActivityDatabase \<Rightarrow> Settings \<Rightarrow>
   (js_error \<times> Settings \<times> DailyGoal list) + (Settings \<times> DailyGoal list)" where
  "checkGoalsFired clock db st =
     (if \<not> isEnabled st then Inr (st, [])
      else
        (case daily_goals st of
           None \<Rightarrow> Inr (st, [])
         | Some Other \<Rightarrow> Inr (st, [])
         | Some (Parsed goals) \<Rightarrow>
             (let breakdown = getCategoryBreakdown (startOfToday clock) (now clock) db;
                  notifiedToday = getNotifiedGoalsToday clock st
              in goalLoop clock breakdown notifiedToday goals (st, []))))"

definition checkGoals ::
  "Clock \<Rightarrow> ActivityDatabase \<Rightarrow> Settings \<Rightarrow>
   (js_error \<times> Settings \<times> Notification list) + (Settings \<times> Notification list)" where
  "checkGoals clock db st =
     (case checkGoalsFired clock db st of
        Inl (e, st', fired) \<Rightarrow> Inl (e, st', map goalNotification fired)
      | Inr (st', fired) \<Rightarrow> Inr (st', map goalNotification fired))"

text \<open>
  What a call has done when it ends, by return or by throw: the settings it leaves and
  what it has shown (or the goals that have fired).
\<close>

definition settingsAfter :: "('e \<times> Settings \<times> 'a) + (Settings \<times> 'a) \<Rightarrow> Settings" where
  "settingsAfter r = (case r of Inl (e, st, xs) \<Rightarrow> st | Inr (st, xs) \<Rightarrow> st)"

definition shownBy :: "('e \<times> Settings \<times> 'a) + (Settings \<times> 'a) \<Rightarrow> 'a" where
  "shownBy r = (case r of Inl (e, st, xs) \<Rightarrow> xs | Inr (st, xs) \<Rightarrow> xs)"

text \<open>The test a well-formed goal has to pass in the loop for its notification to be shown.\<close>

definition goalFires :: "CategoryRow list \<Rightarrow> string option list \<Rightarrow> DailyGoal \<Rightarrow> bool" where
  "goalFires breakdown notifiedToday goal =
     (Some (categoryName goal) \<notin> set notifiedToday \<and>
      targetMs goal \<le> currentMs breakdown (Some (categoryName goal)))"


subsection \<open>Break reminder\<close>

definition clearBreakTimer :: "NotificationManager \<Rightarrow> NotificationManager" where
  "clearBreakTimer mgr = mgr\<lparr>breakTimer := None\<rparr>"

definition resetBreakTimer :: "Settings \<Rightarrow> NotificationManager \<Rightarrow> NotificationManager" where
  "resetBreakTimer st mgr =
     (let intervalMs = getBreakIntervalMs st
      in (clearBreakTimer mgr)\<lparr>breakTimer := Some intervalMs\<rparr>)"

definition onActivityStarted :: "Settings \<Rightarrow> NotificationManager \<Rightarrow> NotificationManager" where
  "onActivityStarted st mgr = (if \<not> isBreakRemindersEnabled st then mgr else resetBreakTimer st mgr)"

definition fireBreakReminder ::
  "int \<Rightarrow> Clock \<Rightarrow> NotificationManager \<Rightarrow> NotificationManager \<times> Notification list" where
  "fireBreakReminder intervalMs clock mgr =
     (if now clock - lastBreakNotification mgr < 5 * 60000 then (mgr, [])
      else
        (let minutes = mathRound (jsDivide intervalMs 60000)
         in (mgr\<lparr>lastBreakNotification := now clock\<rparr>,
             [\<lparr>title = ''Time for a break!'',
               body = ''You'' @ [CHR 0x27] @ ''ve been working for '' @ decimalInt minutes @ '' minutes.''\<rparr>])))"

text \<open>The task armed by \<^verbatim>\<open>resetBreakTimer\<close> runs: \<^verbatim>\<open>fireBreakReminder\<close> with the
  interval the task was armed with.\<close>

definition breakTaskFires ::
  "Clock \<Rightarrow> NotificationManager \<Rightarrow> NotificationManager \<times> Notification list" where
  "breakTaskFires clock mgr =
     (case breakTimer mgr of
        None \<Rightarrow> (mgr, [])
      | Some intervalMs \<Rightarrow> fireBreakReminder intervalMs clock mgr)"

subsection \<open>Daily summary\<close>

definition formatDuration :: "int \<Rightarrow> string" where
  "formatDuration ms =
     (let hours = mathFloor (jsDivide ms 3600000);
          minutes = mathFloor (jsDivide (jsRemainder ms 3600000) 60000)
      in if 0 < hours
         then (if 0 < minutes then decimalInt hours @ ''h '' @ decimalInt minutes @ ''m''
               else decimalInt hours @ ''h'')
         else decimalInt minutes @ ''m'')"

text \<open>\<^verbatim>\<open>breakdown.reduce((max, c) => c.total_duration > max.total_duration ? c : max,
  breakdown[0])\<close>, or \<^verbatim>\<open>null\<close> for an empty breakdown.\<close>

definition topCategory :: "CategoryRow list \<Rightarrow> CategoryRow option" where
  "topCategory breakdown =
     (case breakdown of
        [] \<Rightarrow> None
      | first # _ \<Rightarrow>
          Some (foldl (\<lambda>mx c. if total_duration mx < total_duration c then c else mx)
                  first breakdown))"

text \<open>
  The productive time: 0 unless the \<^verbatim>\<open>try\<close> block runs to its end. In it
  \<^verbatim>\<open>goals.map(g => g.categoryName)\<close> throws on a value that is not an array and on a
  \<^verbatim>\<open>null\<close> element, and the set of names holds \<^verbatim>\<open>undefined\<close> for an element without
  \<^verbatim>\<open>categoryName\<close>.
\<close>

definition productiveTime :: "Settings \<Rightarrow> CategoryRow list \<Rightarrow> int" where
  "productiveTime st breakdown =
     (case daily_goals st of
        None \<Rightarrow> 0
      | Some Other \<Rightarrow> 0
      | Some (Parsed goals) \<Rightarrow>
          if NullElement \<in> set goals then 0
          else
            (let goalCategories = newSet (map elementName goals)
             in foldl (\<lambda>sum c. sum + total_duration c) 0
                  (filter (\<lambda>c. category_name c \<in> set goalCategories) breakdown)))"

definition focusPercent :: "int \<Rightarrow> int \<Rightarrow> int" where
  "focusPercent productive totalTime =
     (if 0 < totalTime then mathRound (jsTimes (jsDivide productive totalTime) 100) else 0)"

text \<open>The separator \<^verbatim>\<open>" \<bullet> "\<close> of the summary: the bullet is U+2022, three bytes in UTF-8.\<close>

definition bullet :: string where
  "bullet = [CHR '' '', CHR 0xE2, CHR 0x80, CHR 0xA2, CHR '' '']"

text \<open>
  \<^verbatim>\<open>fireDailySummary\<close>. Where there is a top row,
  \<^verbatim>\<open>topCategory.category_name.replace\<close> is called on what the read of \<^verbatim>\<open>category_name\<close>
  gives, and throws when that is \<^verbatim>\<open>undefined\<close>; the two fields have been written by
  then, and the error carries the manager as it is left.
\<close>

definition fireDailySummary ::
  "Clock \<Rightarrow> ActivityDatabase \<Rightarrow> Settings \<Rightarrow> NotificationManager \<Rightarrow>
   (js_error \<times> NotificationManager) + (NotificationManager \<times> Notification list)" where
  "fireDailySummary clock db st mgr =
     (if \<not> isDailySummaryEnabled st then Inr (mgr, [])
      else if dailySummaryShownToday mgr \<and> lastSummaryDate mgr = Some (today clock)
      then Inr (mgr, [])
      else
        (let mgr' = mgr\<lparr>dailySummaryShownToday := True, lastSummaryDate := Some (today clock)\<rparr>;
             totalTime = getTotalTrackedTime (startOfToday clock) (now clock) db;
             breakdown = getCategoryBreakdown (startOfToday clock) (now clock) db
         in if totalTime < 60000 then Inr (mgr', [])
            else
              (let productive = productiveTime st breakdown;
                   percent = focusPercent productive totalTime;
                   total_part = ''Total: '' @ formatDuration totalTime;
                   focus_part = (if 0 < productive
                                 then bullet @ ''Focus: '' @ decimalInt percent @ ''%''
                                 else '''')
               in case topCategory breakdown of
                    None \<Rightarrow>
                      Inr (mgr', [\<lparr>title = ''Daily Summary'', body = total_part @ focus_part\<rparr>])
                  | Some topRow \<Rightarrow>
                      (case category_name topRow of
                         None \<Rightarrow> Inl (TypeError, mgr')
                       | Some name \<Rightarrow>
                           Inr (mgr',
                                [\<lparr>title = ''Daily Summary'',
                                  body = total_part @ bullet @ ''Top: '' @
                                         underscoresToSpaces name @ focus_part\<rparr>])))))"

subsection \<open>Sample data for the worked examples\<close>

definition sample :: "string \<Rightarrow> string \<Rightarrow> int \<Rightarrow> int \<Rightarrow> activity_input" where
  "sample app cat t d =
     \<lparr>app_name = app, window_title = ''window'', url = None, category = cat,
      project_name = None, file_name = None, file_type = None, language = None,
      domain = None, start_time = t, end_time = t + d, duration = d, context_json = None\<rparr>"

definition legacyRow :: "nat \<Rightarrow> int \<Rightarrow> int \<Rightarrow> Activity" where
  "legacyRow i t d =
     \<lparr>a_id = i, a_sessionId = None, a_appName = ''Terminal'', a_windowTitle = None,
      a_url = None, a_category = None, a_projectName = None, a_fileName = None,
      a_fileType = None, a_language = None, a_domain = None, a_startTime = t,
      a_endTime = t + d, a_duration = d, a_contextJson = None\<rparr>"

text \<open>Three ten-minute samples of one editor, back to back.\<close>

definition editorRun :: "activity_input list" where
  "editorRun =
     [sample ''Editor'' ''development'' 0 600000,
      sample ''Editor'' ''development'' 600000 600000,
      sample ''Editor'' ''development'' 1200000 600000]"

text \<open>Settings with nothing stored, a clock, and a manager as the constructor leaves it.\<close>

definition noSettings :: Settings where
  "noSettings = \<lparr>plain = Map.empty, daily_goals = None, goals_notified_today = None\<rparr>"

definition sampleClock :: Clock where
  "sampleClock = \<lparr>now = 50000000, today = ''Mon Nov 02 2026'', startOfToday = 0\<rparr>"

definition newManager :: NotificationManager where
  "newManager =
     \<lparr>breakTimer = None, lastBreakNotification = 0, dailySummaryTimer = None,
      dailySummaryShownToday = False, lastSummaryDate = None\<rparr>"

text \<open>A day with one activity of 3,700,000 ms in a given category, and goal settings.\<close>

definition dayOf :: "string \<Rightarrow> ActivityDatabase" where
  "dayOf cat = run [InsertActivity (sample ''Editor'' cat 1000 3700000)] (initDatabase [])"

definition goalSettings :: "goal_element list \<Rightarrow> Settings" where
  "goalSettings goals = noSettings\<lparr>daily_goals := Some (Parsed goals)\<rparr>"

text \<open>A sample of another application, before the editor is used.\<close>

definition browserSample :: activity_input where
  "browserSample = sample ''Browser'' ''research'' (- 300000) 300000"

section \<open>Properties of the session aggregator\<close>

subsection \<open>What one \<^verbatim>\<open>insertActivity\<close> does\<close>

lemma insertActivity_reuse:
  assumes "openSessionFor db (app_name a) = Some i"
  shows "insertActivity a db =
    (Suc (activities_seq db),
     db\<lparr>activities := activities db @ [activityRow (Suc (activities_seq db)) i a],
        activities_seq := Suc (activities_seq db),
        sessions := map (\<lambda>s. if s_id s = i then updateRow (end_time a) (duration a) s else s)
                      (sessions db)\<rparr>)"
  using assms by (simp add: insertActivity_def getOrCreateSession_def updateSession_def)

lemma insertActivity_create:
  assumes "openSessionFor db (app_name a) = None"
  shows "insertActivity a db =
    (Suc (activities_seq db),
     db\<lparr>sessions_seq := Suc (sessions_seq db),
        currentSessionId := Some (Suc (sessions_seq db)),
        currentSessionAppName := Some (app_name a),
        activities := activities db @
          [activityRow (Suc (activities_seq db)) (Suc (sessions_seq db)) a],
        activities_seq := Suc (activities_seq db),
        sessions :=
          map (\<lambda>s. if s_id s = Suc (sessions_seq db)
                   then updateRow (end_time a) (duration a) s else s)
            (sessions db @
              [\<lparr>s_id = Suc (sessions_seq db), s_appName = app_name a,
                s_category = Some (category a), s_startTime = start_time a,
                s_endTime = start_time a, s_totalDuration = 0, s_activityCount = 0\<rparr>])\<rparr>)"
  using assms
  by (simp add: insertActivity_def getOrCreateSession_def updateSession_def createSession_def)

lemma openSessionFor_bound:
  "idsWellFormed db \<Longrightarrow> openSessionFor db n = Some i \<Longrightarrow> i \<le> sessions_seq db \<and> i \<noteq> 0"
  by (auto simp: idsWellFormed_def openSessionFor_def split: option.splits if_splits)

lemma openSessionFor_frame:
  "currentSessionId db' = currentSessionId db \<Longrightarrow>
   currentSessionAppName db' = currentSessionAppName db \<Longrightarrow>
   openSessionFor db' a = openSessionFor db a"
  by (simp add: openSessionFor_def split: option.splits)

lemma s_id_updateRow: "s_id (updateRow e d s) = s_id s"
  by (simp add: updateRow_def)

lemma s_id_comp_update:
  "(s_id \<circ> (\<lambda>s. if s_id s = i then updateRow e d s else s)) = s_id"
  by (auto simp: fun_eq_iff s_id_updateRow)

lemma update_last_only:
  assumes "\<forall>s \<in> set pre. s_id s \<noteq> i" "s_id row = i"
  shows "map (\<lambda>s. if s_id s = i then updateRow e d s else s) (pre @ [row]) =
         pre @ [updateRow e d row]"
  using assms by (induction pre) simp_all

subsection \<open>The invariant is kept\<close>

lemma ids_reuse:
  assumes "idsWellFormed db" "openSessionFor db (app_name a) = Some i"
  shows "idsWellFormed (snd (insertActivity a db))"
proof -
  have "i \<le> sessions_seq db" using openSessionFor_bound[OF assms] by simp
  with assms(1) show ?thesis
    unfolding insertActivity_reuse[OF assms(2)]
    by (auto simp: idsWellFormed_def activityRow_def s_id_comp_update s_id_updateRow)
qed

lemma ids_create:
  assumes "idsWellFormed db" "openSessionFor db (app_name a) = None"
  shows "idsWellFormed (snd (insertActivity a db))"
  using assms(1) unfolding insertActivity_create[OF assms(2)]
  by (auto simp: idsWellFormed_def activityRow_def s_id_comp_update s_id_updateRow updateRow_def)

lemma idsWellFormed_insertActivity:
  "idsWellFormed db \<Longrightarrow> idsWellFormed (snd (insertActivity a db))"
  by (cases "openSessionFor db (app_name a)") (simp_all add: ids_reuse ids_create)

lemma totals_reuse:
  assumes "sessionTotalsHold db" "openSessionFor db (app_name a) = Some i"
  shows "sessionTotalsHold (snd (insertActivity a db))"
  using assms(1) unfolding insertActivity_reuse[OF assms(2)]
  by (auto simp: sessionTotalsHold_def totalsOf_def activitiesOf_def activityRow_def updateRow_def)

lemma totals_create:
  assumes "sessionTotalsHold db" "idsWellFormed db" "openSessionFor db (app_name a) = None"
  shows "sessionTotalsHold (snd (insertActivity a db))"
proof -
  have fresh: "filter (\<lambda>x. a_sessionId x = Some (Suc (sessions_seq db))) (activities db) = []"
    using assms(2) by (auto simp: idsWellFormed_def filter_empty_conv)
  have old: "\<forall>s \<in> set (sessions db). s_id s \<noteq> Suc (sessions_seq db)"
    using assms(2) by (auto simp: idsWellFormed_def)
  show ?thesis
    using assms(1) old fresh unfolding insertActivity_create[OF assms(3)]
    by (auto simp: sessionTotalsHold_def totalsOf_def activitiesOf_def activityRow_def
          updateRow_def)
qed

lemma databaseInvariant_insertActivity:
  "databaseInvariant db \<Longrightarrow> databaseInvariant (snd (insertActivity a db))"
  unfolding databaseInvariant_def
  by (cases "openSessionFor db (app_name a)")
     (simp_all add: ids_reuse ids_create totals_reuse totals_create)

lemma databaseInvariant_closeCurrentSession:
  "databaseInvariant db \<Longrightarrow> databaseInvariant (closeCurrentSession db)"
  by (simp add: databaseInvariant_def idsWellFormed_def sessionTotalsHold_def totalsOf_def
        activitiesOf_def closeCurrentSession_def)

lemma databaseInvariant_perform:
  "databaseInvariant db \<Longrightarrow> databaseInvariant (perform db x)"
  by (cases x)
     (simp_all add: databaseInvariant_insertActivity databaseInvariant_closeCurrentSession)

lemma databaseInvariant_run:
  "databaseInvariant db \<Longrightarrow> databaseInvariant (run ops db)"
  unfolding run_def
  by (induction ops arbitrary: db) (simp_all add: databaseInvariant_perform)

lemma databaseInvariant_initDatabase: "databaseInvariant (initDatabase old)"
  by (simp add: databaseInvariant_def idsWellFormed_def sessionTotalsHold_def initDatabase_def)

lemma databaseInvariant_reachable: "databaseInvariant (run ops (initDatabase old))"
  by (rule databaseInvariant_run[OF databaseInvariant_initDatabase])

lemma run_Cons: "run (x # xs) db = run xs (perform db x)"
  by (simp add: run_def)

text \<open>
  C1. Whatever operations have been performed, on a new store or on one migrated from
  before sessions existed, every session row carries the sum of the durations of its
  activities as \<open>totalDuration\<close> and their number as \<open>activityCount\<close>.
\<close>

theorem session_totals_invariant:
  "sessionTotalsHold (run ops (initDatabase old))"
  using databaseInvariant_reachable[of ops old] by (simp add: databaseInvariant_def)

theorem session_totals_invariant_witness:
  "sessionTotalsHold
     (run [InsertActivity (sample ''Editor'' ''development'' 0 600000),
           InsertActivity (sample ''Editor'' ''development'' 600000 300000),
           CloseCurrentSession,
           InsertActivity (sample ''Browser'' ''research'' 900000 120000)]
        (initDatabase [legacyRow 7 0 5000])) \<and>
   map (\<lambda>s. (s_id s, s_totalDuration s, s_activityCount s))
     (sessions
       (run [InsertActivity (sample ''Editor'' ''development'' 0 600000),
             InsertActivity (sample ''Editor'' ''development'' 600000 300000),
             CloseCurrentSession,
             InsertActivity (sample ''Browser'' ''research'' 900000 120000)]
          (initDatabase [legacyRow 7 0 5000]))) =
   [(1, 900000, 2), (2, 120000, 1)]"
proof -
  have "map (\<lambda>s. (s_id s, s_totalDuration s, s_activityCount s))
     (sessions
       (run [InsertActivity (sample ''Editor'' ''development'' 0 600000),
             InsertActivity (sample ''Editor'' ''development'' 600000 300000),
             CloseCurrentSession,
             InsertActivity (sample ''Browser'' ''research'' 900000 120000)]
          (initDatabase [legacyRow 7 0 5000]))) =
   [(1, 900000, 2), (2, 120000, 1)]"
    by (simp add: run_def sample_def legacyRow_def initDatabase_def insertActivity_def
          getOrCreateSession_def openSessionFor_def createSession_def updateSession_def
          updateRow_def closeCurrentSession_def)
  then show ?thesis
    using session_totals_invariant
      [of "[InsertActivity (sample ''Editor'' ''development'' 0 600000),
            InsertActivity (sample ''Editor'' ''development'' 600000 300000),
            CloseCurrentSession,
            InsertActivity (sample ''Browser'' ''research'' 900000 120000)]"
          "[legacyRow 7 0 5000]"]
    by simp
qed

subsection \<open>A run of samples of one application\<close>

lemma reuse_run:
  assumes "openSessionFor db a = Some sid"
      and "\<forall>x \<in> set acts. app_name x = a"
      and "sessions db = pre @ [row]" and "s_id row = sid" and "\<forall>s \<in> set pre. s_id s \<noteq> sid"
  shows "\<exists>row' new.
           sessions (run (map InsertActivity acts) db) = pre @ [row'] \<and>
           s_id row' = sid \<and>
           s_totalDuration row' = s_totalDuration row + sum_list (map duration acts) \<and>
           s_activityCount row' = s_activityCount row + int (length acts) \<and>
           activities (run (map InsertActivity acts) db) = activities db @ new \<and>
           map a_sessionId new = replicate (length acts) (Some sid)"
  using assms
proof (induction acts arbitrary: db row)
  case Nil
  then show ?case by (simp add: run_def)
next
  case (Cons x xs)
  let ?db1 = "snd (insertActivity x db)"
  let ?row1 = "updateRow (end_time x) (duration x) row"
  have ax: "app_name x = a" using Cons.prems(2) by simp
  have open1: "openSessionFor db (app_name x) = Some sid" using Cons.prems(1) ax by simp
  have "sessions ?db1 =
      map (\<lambda>s. if s_id s = sid then updateRow (end_time x) (duration x) s else s) (sessions db)"
    unfolding insertActivity_reuse[OF open1] by simp
  also have "\<dots> =
      map (\<lambda>s. if s_id s = sid then updateRow (end_time x) (duration x) s else s) (pre @ [row])"
    by (simp only: Cons.prems(3))
  also have "\<dots> = pre @ [?row1]"
    by (rule update_last_only[OF Cons.prems(5) Cons.prems(4)])
  finally have s1: "sessions ?db1 = pre @ [?row1]" .
  have a1: "activities ?db1 = activities db @ [activityRow (Suc (activities_seq db)) sid x]"
    unfolding insertActivity_reuse[OF open1] by simp
  have "openSessionFor ?db1 a = openSessionFor db a"
    unfolding insertActivity_reuse[OF open1] by (rule openSessionFor_frame) simp_all
  then have o1: "openSessionFor ?db1 a = Some sid"
    using Cons.prems(1) by simp
  have rest: "\<forall>x \<in> set xs. app_name x = a" using Cons.prems(2) by simp
  have id1: "s_id ?row1 = sid" using Cons.prems(4) by (simp add: s_id_updateRow)
  from Cons.IH[OF o1 rest s1 id1 Cons.prems(5)]
  obtain row' new where r:
    "sessions (run (map InsertActivity xs) ?db1) = pre @ [row']" "s_id row' = sid"
    "s_totalDuration row' = s_totalDuration ?row1 + sum_list (map duration xs)"
    "s_activityCount row' = s_activityCount ?row1 + int (length xs)"
    "activities (run (map InsertActivity xs) ?db1) = activities ?db1 @ new"
    "map a_sessionId new = replicate (length xs) (Some sid)"
    by blast
  have run: "run (map InsertActivity (x # xs)) db = run (map InsertActivity xs) ?db1"
    by (simp add: run_Cons)
  have "sessions (run (map InsertActivity (x # xs)) db) = pre @ [row']"
    using r(1) run by simp
  moreover have "s_totalDuration row' = s_totalDuration row + sum_list (map duration (x # xs))"
    using r(3) by (simp add: updateRow_def)
  moreover have "s_activityCount row' = s_activityCount row + int (length (x # xs))"
    using r(4) by (simp add: updateRow_def)
  moreover have "activities (run (map InsertActivity (x # xs)) db) =
      activities db @ (activityRow (Suc (activities_seq db)) sid x # new)"
    using r(5) run a1 by simp
  moreover have "map a_sessionId (activityRow (Suc (activities_seq db)) sid x # new) =
      replicate (length (x # xs)) (Some sid)"
    using r(6) by (simp add: activityRow_def)
  ultimately show ?case using r(2)
    by (intro exI[of _ row'] exI[of _ "activityRow (Suc (activities_seq db)) sid x # new"]) simp
qed

lemma run_append: "run (xs @ ys) db = run ys (run xs db)"
  by (simp add: run_def)

lemma app_name_after_insert:
  "currentSessionAppName (snd (insertActivity x db)) = Some (app_name x)"
proof (cases "openSessionFor db (app_name x)")
  case None
  then show ?thesis by (simp add: insertActivity_create)
next
  case (Some i)
  then have "currentSessionAppName db = Some (app_name x)"
    by (auto simp: openSessionFor_def split: option.splits if_splits)
  with Some show ?thesis by (simp add: insertActivity_reuse)
qed

text \<open>Where a run can start by the calls, the lookup of the code finds no open session.\<close>

lemma startsRun_not_open:
  assumes "startsRun before a"
  shows "openSessionFor (run before (initDatabase old)) a = None"
proof (cases before rule: rev_cases)
  case Nil
  then show ?thesis by (simp add: run_def openSessionFor_def initDatabase_def)
next
  case (snoc ys last_op)
  let ?db = "run ys (initDatabase old)"
  have r: "run before (initDatabase old) = perform ?db last_op"
    by (simp add: snoc run_def)
  show ?thesis
  proof (cases last_op)
    case CloseCurrentSession
    then show ?thesis by (simp add: r openSessionFor_def closeCurrentSession_def)
  next
    case (InsertActivity x)
    with assms snoc have "app_name x \<noteq> a" by (simp add: startsRun_def)
    then show ?thesis
      using app_name_after_insert[of x ?db]
      by (simp add: r InsertActivity openSessionFor_def split: option.splits)
  qed
qed

text \<open>
  C2. Take any calls \<open>before\<close> after which a run of samples of application \<open>a\<close> can
  start (none at all, or the last one \<^verbatim>\<open>closeCurrentSession\<close>, or the last one a sample
  of another application), on a new store or a migrated one, and then a non-empty run of
  \<^verbatim>\<open>insertActivity\<close> calls that all carry \<open>app_name a\<close>. The run adds exactly one session
  row (the first call creates it, under an id no earlier row has, and the later calls
  reuse it), every activity row the run adds carries that row's id as its session id, and
  the row ends with \<open>activityCount\<close> the number of calls and \<open>totalDuration\<close> the sum of
  their durations.
\<close>

theorem same_app_grouping:
  assumes "startsRun before a"
      and "acts \<noteq> []"
      and "\<forall>x \<in> set acts. app_name x = a"
  shows "\<exists>row new.
           sessions (run (before @ map InsertActivity acts) (initDatabase old)) =
             sessions (run before (initDatabase old)) @ [row] \<and>
           s_id row \<notin> s_id ` set (sessions (run before (initDatabase old))) \<and>
           s_activityCount row = int (length acts) \<and>
           s_totalDuration row = sum_list (map duration acts) \<and>
           activities (run (before @ map InsertActivity acts) (initDatabase old)) =
             activities (run before (initDatabase old)) @ new \<and>
           map a_sessionId new = replicate (length acts) (Some (s_id row))"
proof -
  define db where "db = run before (initDatabase old)"
  have closed0: "openSessionFor db a = None"
    unfolding db_def by (rule startsRun_not_open[OF assms(1)])
  have wf: "idsWellFormed db"
    using databaseInvariant_reachable[of before old] by (simp add: databaseInvariant_def db_def)
  obtain x xs where acts: "acts = x # xs" using assms(2) by (cases acts) auto
  let ?sid = "Suc (sessions_seq db)"
  let ?db1 = "snd (insertActivity x db)"
  let ?row0 = "\<lparr>s_id = ?sid, s_appName = app_name x, s_category = Some (category x),
                s_startTime = start_time x, s_endTime = start_time x,
                s_totalDuration = 0, s_activityCount = 0\<rparr>"
  let ?row1 = "updateRow (end_time x) (duration x) ?row0"
  have ax: "app_name x = a" using assms(3) acts by simp
  have closed: "openSessionFor db (app_name x) = None" using closed0 ax by simp
  have fresh: "\<forall>s \<in> set (sessions db). s_id s \<noteq> ?sid"
    using wf by (auto simp: idsWellFormed_def)
  have "sessions ?db1 =
      map (\<lambda>s. if s_id s = ?sid then updateRow (end_time x) (duration x) s else s)
        (sessions db @ [?row0])"
    unfolding insertActivity_create[OF closed] by simp
  also have "\<dots> = sessions db @ [?row1]"
    by (rule update_last_only[OF fresh]) simp
  finally have s1: "sessions ?db1 = sessions db @ [?row1]" .
  have a1: "activities ?db1 = activities db @ [activityRow (Suc (activities_seq db)) ?sid x]"
    unfolding insertActivity_create[OF closed] by simp
  have o1: "openSessionFor ?db1 a = Some ?sid"
    unfolding insertActivity_create[OF closed] using ax by (simp add: openSessionFor_def)
  have id1: "s_id ?row1 = ?sid" by (simp add: s_id_updateRow)
  have rest: "\<forall>x \<in> set xs. app_name x = a" using assms(3) acts by simp
  from reuse_run[OF o1 rest s1 id1 fresh]
  obtain row' new where r:
    "sessions (run (map InsertActivity xs) ?db1) = sessions db @ [row']" "s_id row' = ?sid"
    "s_totalDuration row' = s_totalDuration ?row1 + sum_list (map duration xs)"
    "s_activityCount row' = s_activityCount ?row1 + int (length xs)"
    "activities (run (map InsertActivity xs) ?db1) = activities ?db1 @ new"
    "map a_sessionId new = replicate (length xs) (Some ?sid)"
    by blast
  have run: "run (before @ map InsertActivity acts) (initDatabase old) =
      run (map InsertActivity xs) ?db1"
    by (simp add: acts run_append run_Cons db_def)
  have "sessions (run (before @ map InsertActivity acts) (initDatabase old)) =
      sessions db @ [row']"
    using r(1) run by simp
  moreover have "s_id row' \<notin> s_id ` set (sessions db)"
    using fresh r(2) by auto
  moreover have "s_activityCount row' = int (length acts)"
    using r(4) by (simp add: acts updateRow_def)
  moreover have "s_totalDuration row' = sum_list (map duration acts)"
    using r(3) by (simp add: acts updateRow_def)
  moreover have "activities (run (before @ map InsertActivity acts) (initDatabase old)) =
      activities db @ (activityRow (Suc (activities_seq db)) ?sid x # new)"
    using r(5) run a1 by simp
  moreover have "map a_sessionId (activityRow (Suc (activities_seq db)) ?sid x # new) =
      replicate (length acts) (Some (s_id row'))"
    using r(6) r(2) by (simp add: acts activityRow_def)
  ultimately have "\<exists>row new.
      sessions (run (before @ map InsertActivity acts) (initDatabase old)) =
        sessions db @ [row] \<and>
      s_id row \<notin> s_id ` set (sessions db) \<and>
      s_activityCount row = int (length acts) \<and>
      s_totalDuration row = sum_list (map duration acts) \<and>
      activities (run (before @ map InsertActivity acts) (initDatabase old)) =
        activities db @ new \<and>
      map a_sessionId new = replicate (length acts) (Some (s_id row))"
    by (intro exI[of _ row'] exI[of _ "activityRow (Suc (activities_seq db)) ?sid x # new"]) simp
  then show ?thesis unfolding db_def .
qed

text \<open>
  Three ten-minute samples of the editor: on a new store they make one session of
  1,800,000 ms and three activities; after a sample of the browser they make a second
  session of their own, and the browser's session stays at its one activity.
\<close>

theorem same_app_grouping_witness:
  "startsRun [] ''Editor'' \<and>
   startsRun [InsertActivity browserSample] ''Editor'' \<and>
   (\<exists>row new.
      sessions (run ([] @ map InsertActivity editorRun) (initDatabase [])) =
        sessions (run [] (initDatabase [])) @ [row] \<and>
      s_id row \<notin> s_id ` set (sessions (run [] (initDatabase []))) \<and>
      s_activityCount row = int (length editorRun) \<and>
      s_totalDuration row = sum_list (map duration editorRun) \<and>
      activities (run ([] @ map InsertActivity editorRun) (initDatabase [])) =
        activities (run [] (initDatabase [])) @ new \<and>
      map a_sessionId new = replicate (length editorRun) (Some (s_id row))) \<and>
   (\<exists>row new.
      sessions (run ([InsertActivity browserSample] @ map InsertActivity editorRun)
                  (initDatabase [])) =
        sessions (run [InsertActivity browserSample] (initDatabase [])) @ [row] \<and>
      s_id row \<notin> s_id ` set (sessions (run [InsertActivity browserSample] (initDatabase []))) \<and>
      s_activityCount row = int (length editorRun) \<and>
      s_totalDuration row = sum_list (map duration editorRun) \<and>
      activities (run ([InsertActivity browserSample] @ map InsertActivity editorRun)
                    (initDatabase [])) =
        activities (run [InsertActivity browserSample] (initDatabase [])) @ new \<and>
      map a_sessionId new = replicate (length editorRun) (Some (s_id row))) \<and>
   int (length editorRun) = 3 \<and>
   sum_list (map duration editorRun) = 1800000 \<and>
   sessions (run (map InsertActivity editorRun) (initDatabase [])) =
     [\<lparr>s_id = 1, s_appName = ''Editor'', s_category = Some ''development'',
       s_startTime = 0, s_endTime = 1800000, s_totalDuration = 1800000,
       s_activityCount = 3\<rparr>] \<and>
   map a_sessionId (activities (run (map InsertActivity editorRun) (initDatabase []))) =
     [Some 1, Some 1, Some 1] \<and>
   sessions (run (InsertActivity browserSample # map InsertActivity editorRun)
               (initDatabase [])) =
     [\<lparr>s_id = 1, s_appName = ''Browser'', s_category = Some ''research'',
       s_startTime = - 300000, s_endTime = 0, s_totalDuration = 300000,
       s_activityCount = 1\<rparr>,
      \<lparr>s_id = 2, s_appName = ''Editor'', s_category = Some ''development'',
       s_startTime = 0, s_endTime = 1800000, s_totalDuration = 1800000,
       s_activityCount = 3\<rparr>] \<and>
   map a_sessionId
     (activities (run (InsertActivity browserSample # map InsertActivity editorRun)
                    (initDatabase []))) =
     [Some 1, Some 2, Some 2, Some 2]"
proof -
  have h1: "startsRun [] ''Editor''"
    by (simp add: startsRun_def)
  have h2: "startsRun [InsertActivity browserSample] ''Editor''"
    by (simp add: startsRun_def browserSample_def sample_def)
  have h3: "editorRun \<noteq> []"
    by (simp add: editorRun_def)
  have h4: "\<forall>x \<in> set editorRun. app_name x = ''Editor''"
    by (simp add: editorRun_def sample_def)
  have c1: "int (length editorRun) = 3"
    by (simp add: editorRun_def)
  have c2: "sum_list (map duration editorRun) = 1800000"
    by (simp add: editorRun_def sample_def)
  have c3: "sessions (run (map InsertActivity editorRun) (initDatabase [])) =
     [\<lparr>s_id = 1, s_appName = ''Editor'', s_category = Some ''development'',
       s_startTime = 0, s_endTime = 1800000, s_totalDuration = 1800000,
       s_activityCount = 3\<rparr>]"
    by (simp add: editorRun_def run_def sample_def initDatabase_def insertActivity_def
          getOrCreateSession_def openSessionFor_def createSession_def updateSession_def
          updateRow_def)
  have c4: "map a_sessionId (activities (run (map InsertActivity editorRun) (initDatabase []))) =
     [Some 1, Some 1, Some 1]"
    by (simp add: editorRun_def run_def sample_def initDatabase_def insertActivity_def
          getOrCreateSession_def openSessionFor_def createSession_def updateSession_def
          updateRow_def activityRow_def)
  have c5: "sessions (run (InsertActivity browserSample # map InsertActivity editorRun)
               (initDatabase [])) =
     [\<lparr>s_id = 1, s_appName = ''Browser'', s_category = Some ''research'',
       s_startTime = - 300000, s_endTime = 0, s_totalDuration = 300000,
       s_activityCount = 1\<rparr>,
      \<lparr>s_id = 2, s_appName = ''Editor'', s_category = Some ''development'',
       s_startTime = 0, s_endTime = 1800000, s_totalDuration = 1800000,
       s_activityCount = 3\<rparr>]"
    by (simp add: editorRun_def browserSample_def run_def sample_def initDatabase_def
          insertActivity_def getOrCreateSession_def openSessionFor_def createSession_def
          updateSession_def updateRow_def)
  have c6: "map a_sessionId
     (activities (run (InsertActivity browserSample # map InsertActivity editorRun)
                    (initDatabase []))) =
     [Some 1, Some 2, Some 2, Some 2]"
    by (simp add: editorRun_def browserSample_def run_def sample_def initDatabase_def
          insertActivity_def getOrCreateSession_def openSessionFor_def createSession_def
          updateSession_def updateRow_def activityRow_def)
  from h1 h2 same_app_grouping[OF h1 h3 h4, of "[]"] same_app_grouping[OF h2 h3 h4, of "[]"]
    c1 c2 c3 c4 c5 c6
  show ?thesis by (intro conjI)
qed

subsection \<open>Sessions with their activities\<close>

lemma groupActivity_keys:
  assumes "\<forall>k xs. m k = Some xs \<longrightarrow> (\<forall>a \<in> set xs. bucketKey a = k)"
  shows "\<forall>k xs. foldl groupActivity m rows k = Some xs \<longrightarrow> (\<forall>a \<in> set xs. bucketKey a = k)"
  using assms
proof (induction rows arbitrary: m)
  case Nil
  then show ?case by simp
next
  case (Cons r rows)
  have "\<forall>k xs. groupActivity m r k = Some xs \<longrightarrow> (\<forall>a \<in> set xs. bucketKey a = k)"
  proof (intro allI impI ballI)
    fix k xs a
    assume g: "groupActivity m r k = Some xs" and a: "a \<in> set xs"
    show "bucketKey a = k"
    proof (cases "k = bucketKey r")
      case True
      show ?thesis
      proof (cases "m k")
        case None
        with g True have "xs = [r]" by (simp add: groupActivity_def Let_def)
        with a True show ?thesis by simp
      next
        case (Some ys)
        with g True have "xs = ys @ [r]" by (simp add: groupActivity_def Let_def)
        with a Some Cons.prems True show ?thesis by auto
      qed
    next
      case False
      with g have "m k = Some xs" by (simp add: groupActivity_def Let_def)
      with a Cons.prems show ?thesis by blast
    qed
  qed
  from Cons.IH[OF this] show ?case by simp
qed

lemma bucket_members:
  assumes "foldl groupActivity Map.empty rows k = Some xs" "a \<in> set xs" "k \<noteq> 0"
  shows "a_sessionId a = Some k"
proof -
  have "bucketKey a = k"
    using groupActivity_keys[of Map.empty rows] assms(1,2) by auto
  with assms(3) show ?thesis by (cases "a_sessionId a") (auto simp: bucketKey_def)
qed

text \<open>
  C9. In any state the aggregator can reach, on a store that may hold activity rows
  without a session id: no session row has the id 0 under which
  \<^verbatim>\<open>getSessionsWithActivities\<close> collects such rows, and every activity in the list of a
  returned session carries that session's id; so an activity without a session id is in
  no returned list.
\<close>

theorem orphans_dropped:
  "0 \<notin> s_id ` set (sessions (run ops (initDatabase old))) \<and>
   (\<forall>sw \<in> set (getSessionsWithActivities startTime endTime (run ops (initDatabase old))).
      \<forall>a \<in> set (sw_activities sw). a_sessionId a = Some (s_id sw) \<and> a_sessionId a \<noteq> None)"
proof -
  let ?db = "run ops (initDatabase old)"
  have wf: "idsWellFormed ?db"
    using databaseInvariant_reachable[of ops old] by (simp add: databaseInvariant_def)
  have nz: "\<forall>s \<in> set (sessions ?db). s_id s \<noteq> 0"
    using wf by (auto simp: idsWellFormed_def)
  have "\<forall>sw \<in> set (getSessionsWithActivities startTime endTime ?db).
      \<forall>a \<in> set (sw_activities sw). a_sessionId a = Some (s_id sw)"
  proof (intro ballI)
    fix sw a
    assume sw: "sw \<in> set (getSessionsWithActivities startTime endTime ?db)"
       and a: "a \<in> set (sw_activities sw)"
    let ?m = "foldl groupActivity Map.empty (getActivitiesInRange startTime endTime ?db)"
    from sw obtain s where s: "s \<in> set (sessions ?db)" "s_id sw = s_id s"
      "sw_activities sw = (case ?m (s_id s) of None \<Rightarrow> [] | Some xs \<Rightarrow> xs)"
      by (auto simp: getSessionsWithActivities_def Let_def split: if_splits)
    from a s(3) obtain xs where xs: "?m (s_id s) = Some xs" "a \<in> set xs"
      by (cases "?m (s_id s)") auto
    have "s_id s \<noteq> 0" using nz s(1) by simp
    from bucket_members[OF xs this] s(2) show "a_sessionId a = Some (s_id sw)" by simp
  qed
  with nz show ?thesis by auto
qed

theorem orphans_dropped_witness:
  "0 \<notin> s_id ` set (sessions
      (run [InsertActivity (sample ''Editor'' ''development'' 1000 600000)]
         (initDatabase [legacyRow 7 2000 5000]))) \<and>
   map a_id (activities
      (run [InsertActivity (sample ''Editor'' ''development'' 1000 600000)]
         (initDatabase [legacyRow 7 2000 5000]))) = [7, 8] \<and>
   map (\<lambda>sw. (s_id sw, map a_id (sw_activities sw)))
     (getSessionsWithActivities 0 10000
        (run [InsertActivity (sample ''Editor'' ''development'' 1000 600000)]
           (initDatabase [legacyRow 7 2000 5000]))) = [(1, [8])]"
proof -
  have "map a_id (activities
      (run [InsertActivity (sample ''Editor'' ''development'' 1000 600000)]
         (initDatabase [legacyRow 7 2000 5000]))) = [7, 8]"
    by (simp add: run_def sample_def legacyRow_def initDatabase_def insertActivity_def
          getOrCreateSession_def openSessionFor_def createSession_def updateSession_def
          updateRow_def activityRow_def)
  moreover have "map (\<lambda>sw. (s_id sw, map a_id (sw_activities sw)))
     (getSessionsWithActivities 0 10000
        (run [InsertActivity (sample ''Editor'' ''development'' 1000 600000)]
           (initDatabase [legacyRow 7 2000 5000]))) = [(1, [8])]"
    by (simp add: run_def sample_def legacyRow_def initDatabase_def insertActivity_def
          getOrCreateSession_def openSessionFor_def createSession_def updateSession_def
          updateRow_def activityRow_def getSessionsWithActivities_def
          getActivitiesInRange_def inRange_def groupActivity_def bucketKey_def)
  ultimately show ?thesis
    using orphans_dropped
      [of "[InsertActivity (sample ''Editor'' ''development'' 1000 600000)]"
          "[legacyRow 7 2000 5000]" 0 10000]
    by simp
qed

subsection \<open>Start and end of a session\<close>

lemma updated_rows:
  assumes "\<forall>s \<in> set xs. s_id s \<noteq> i \<longrightarrow> s_startTime s \<le> s_endTime s"
      and "\<forall>s \<in> set xs. s_id s = i \<longrightarrow> s_startTime s \<le> e"
  shows "\<forall>s \<in> set (map (\<lambda>s. if s_id s = i then updateRow e d s else s) xs).
           s_startTime s \<le> s_endTime s"
  using assms by (auto simp: updateRow_def)

text \<open>
  C10. \<^verbatim>\<open>createSession\<close> appends a row whose \<open>endTime\<close> is its \<open>startTime\<close>, with
  \<open>totalDuration\<close> and \<open>activityCount\<close> 0, so a table in which every row has
  \<open>startTime \<le> endTime\<close> is still such a table after it; and \<^verbatim>\<open>insertActivity\<close>
  keeps the table such whenever the sample's \<open>end_time\<close> is not before the \<open>startTime\<close>
  of the session the sample is applied to.
\<close>

theorem session_start_before_end:
  assumes "startBeforeEnd db"
  shows "sessions (snd (createSession appName cat t db)) =
           sessions db @
             [\<lparr>s_id = fst (createSession appName cat t db), s_appName = appName,
               s_category = Some cat, s_startTime = t, s_endTime = t,
               s_totalDuration = 0, s_activityCount = 0\<rparr>] \<and>
         startBeforeEnd (snd (createSession appName cat t db)) \<and>
         ((\<forall>s \<in> set (sessionOfSample a db). s_startTime s \<le> end_time a) \<longrightarrow>
            startBeforeEnd (snd (insertActivity a db)))"
proof (intro conjI impI)
  show "sessions (snd (createSession appName cat t db)) =
           sessions db @
             [\<lparr>s_id = fst (createSession appName cat t db), s_appName = appName,
               s_category = Some cat, s_startTime = t, s_endTime = t,
               s_totalDuration = 0, s_activityCount = 0\<rparr>]"
    by (simp add: createSession_def)
  show "startBeforeEnd (snd (createSession appName cat t db))"
    using assms by (simp add: createSession_def startBeforeEnd_def)
next
  assume hyp: "\<forall>s \<in> set (sessionOfSample a db). s_startTime s \<le> end_time a"
  obtain sid db1 where g: "getOrCreateSession (app_name a) (category a) (start_time a) db = (sid, db1)"
    by (cases "getOrCreateSession (app_name a) (category a) (start_time a) db")
  have inv1: "\<forall>s \<in> set (sessions db1). s_id s \<noteq> sid \<longrightarrow> s_startTime s \<le> s_endTime s"
    using g assms
    by (auto simp: getOrCreateSession_def createSession_def startBeforeEnd_def
          split: option.splits)
  have tgt: "\<forall>s \<in> set (sessions db1). s_id s = sid \<longrightarrow> s_startTime s \<le> end_time a"
    using hyp g by (simp add: sessionOfSample_def)
  have "sessions (snd (insertActivity a db)) =
      map (\<lambda>s. if s_id s = sid then updateRow (end_time a) (duration a) s else s) (sessions db1)"
    using g by (simp add: insertActivity_def updateSession_def)
  then show "startBeforeEnd (snd (insertActivity a db))"
    unfolding startBeforeEnd_def using updated_rows[OF inv1 tgt] by simp
qed

theorem session_start_before_end_witness:
  "startBeforeEnd (initDatabase []) \<and>
   sessions (snd (createSession ''Editor'' ''development'' 5000 (initDatabase []))) =
     [\<lparr>s_id = 1, s_appName = ''Editor'', s_category = Some ''development'',
       s_startTime = 5000, s_endTime = 5000, s_totalDuration = 0, s_activityCount = 0\<rparr>] \<and>
   startBeforeEnd (snd (createSession ''Editor'' ''development'' 5000 (initDatabase []))) \<and>
   map s_startTime (sessionOfSample (sample ''Editor'' ''development'' 5000 600000)
     (initDatabase [])) = [5000] \<and>
   startBeforeEnd
     (snd (insertActivity (sample ''Editor'' ''development'' 5000 600000) (initDatabase []))) \<and>
   map (\<lambda>s. (s_startTime s, s_endTime s))
     (sessions (snd (insertActivity (sample ''Editor'' ''development'' 5000 600000)
        (initDatabase [])))) = [(5000, 605000)]"
proof -
  have h1: "startBeforeEnd (initDatabase [])"
    by (simp add: startBeforeEnd_def initDatabase_def)
  have h2: "map s_startTime (sessionOfSample (sample ''Editor'' ''development'' 5000 600000)
     (initDatabase [])) = [5000]"
    by (simp add: sessionOfSample_def sample_def initDatabase_def getOrCreateSession_def
          openSessionFor_def createSession_def)
  have h3: "\<forall>s \<in> set (sessionOfSample (sample ''Editor'' ''development'' 5000 600000)
     (initDatabase [])). s_startTime s \<le> end_time (sample ''Editor'' ''development'' 5000 600000)"
    by (simp add: sessionOfSample_def sample_def initDatabase_def getOrCreateSession_def
          openSessionFor_def createSession_def)
  have h4: "map (\<lambda>s. (s_startTime s, s_endTime s))
     (sessions (snd (insertActivity (sample ''Editor'' ''development'' 5000 600000)
        (initDatabase [])))) = [(5000, 605000)]"
    by (simp add: sample_def initDatabase_def insertActivity_def getOrCreateSession_def
          openSessionFor_def createSession_def updateSession_def updateRow_def)
  have h5: "fst (createSession ''Editor'' ''development'' 5000 (initDatabase [])) = 1"
    by (simp add: createSession_def initDatabase_def)
  show ?thesis
    using session_start_before_end
      [OF h1, of "''Editor''" "''development''" 5000
         "sample ''Editor'' ''development'' 5000 600000"]
      h1 h2 h3 h4 h5
    by (simp add: initDatabase_def)
qed

section \<open>Properties of the notification manager\<close>

subsection \<open>The summary hour\<close>

text \<open>
  C8, as the code has it. The summary hour is always one of 0..23. A stored value that
  \<^verbatim>\<open>parseInt\<close> reads as a number in 0..23 is used as it is; one that reads as a number
  outside 0..23 is replaced by the default 18, not by the nearer bound; an absent key and
  a value that does not start with a number give 18 as well.
\<close>

theorem summary_hour_default_outside_range:
  "0 \<le> getDailySummaryHour st \<and> getDailySummaryHour st \<le> 23 \<and>
   (plain st ''daily_summary_hour'' = Some v \<and> parseInt v = Some h \<and> 0 \<le> h \<and> h \<le> 23
      \<longrightarrow> getDailySummaryHour st = h) \<and>
   (plain st ''daily_summary_hour'' = Some v \<and> parseInt v = Some h \<and> (h < 0 \<or> 23 < h)
      \<longrightarrow> getDailySummaryHour st = 18) \<and>
   (plain st ''daily_summary_hour'' = None \<or>
    (plain st ''daily_summary_hour'' = Some v \<and> parseInt v = None)
      \<longrightarrow> getDailySummaryHour st = 18)"
proof -
  have empty: "parseInt [] = None"
    by (simp add: parseInt_def)
  show ?thesis
    by (auto simp: getDailySummaryHour_def parseSetting_def empty split: option.splits)
qed

theorem summary_hour_default_outside_range_witness:
  "parseInt ''7'' = Some 7 \<and>
   getDailySummaryHour (noSettings\<lparr>plain := [''daily_summary_hour'' \<mapsto> ''7'']\<rparr>) = 7 \<and>
   parseInt ''-1'' = Some (- 1) \<and>
   getDailySummaryHour (noSettings\<lparr>plain := [''daily_summary_hour'' \<mapsto> ''-1'']\<rparr>) = 18 \<and>
   parseInt ''evening'' = None \<and>
   getDailySummaryHour (noSettings\<lparr>plain := [''daily_summary_hour'' \<mapsto> ''evening'']\<rparr>) = 18 \<and>
   getDailySummaryHour noSettings = 18"
proof -
  have p1: "parseInt ''7'' = Some 7"
    by (simp add: parseInt_def isWhiteSpace_def isDigit_def digitValue_def)
  have p2: "parseInt ''-1'' = Some (- 1)"
    by (simp add: parseInt_def isWhiteSpace_def isDigit_def digitValue_def)
  have p3: "parseInt ''evening'' = None"
    by (simp add: parseInt_def isWhiteSpace_def isDigit_def)
  show ?thesis
    using p1 p2 p3
      summary_hour_default_outside_range
        [of "noSettings\<lparr>plain := [''daily_summary_hour'' \<mapsto> ''7'']\<rparr>" "''7''" 7]
      summary_hour_default_outside_range
        [of "noSettings\<lparr>plain := [''daily_summary_hour'' \<mapsto> ''-1'']\<rparr>" "''-1''" "- 1"]
      summary_hour_default_outside_range
        [of "noSettings\<lparr>plain := [''daily_summary_hour'' \<mapsto> ''evening'']\<rparr>" "''evening''" 0]
      summary_hour_default_outside_range [of noSettings "''''" 0]
    by (simp add: noSettings_def)
qed

text \<open>
  The stored value \<^verbatim>\<open>"25"\<close> reads as the number 25, which clamped to 0..23 is 23; the
  summary hour is 18.
\<close>

theorem summary_hour_clamp_counterexample:
  "parseInt ''25'' = Some 25 \<and> max 0 (min 23 (25::int)) = 23 \<and>
   getDailySummaryHour (noSettings\<lparr>plain := [''daily_summary_hour'' \<mapsto> ''25'']\<rparr>) = 18"
  by (simp add: getDailySummaryHour_def parseSetting_def noSettings_def parseInt_def
        isWhiteSpace_def isDigit_def digitValue_def)

subsection \<open>Division of safe integers\<close>

text \<open>
  \<open>bitLength\<close> is the position of the leading bit, so \<open>leadingExponent\<close> is the
  exponent of the leading bit of the quotient; and a quotient that is itself an integer
  below \<open>2\<^sup>5\<^sup>3\<close> is a binary64 number, which \<^verbatim>\<open>Math.round\<close> gives back.
\<close>

lemma bitLength_upper: "0 < n \<Longrightarrow> n < 2 ^ bitLength n"
proof (induction n rule: bitLength.induct)
  case (1 n)
  show ?case
  proof (cases "n div 2 = 0")
    case True
    with 1 have "n = 1" by linarith
    then show ?thesis by (simp add: bitLength.simps)
  next
    case False
    with 1 have pos: "0 < n div 2" by linarith
    then have "n div 2 < 2 ^ bitLength (n div 2)" using 1 by simp
    then have "n < 2 * 2 ^ bitLength (n div 2)" by linarith
    then show ?thesis using 1(2) by (subst bitLength.simps) simp
  qed
qed

lemma bitLength_lower: "0 < n \<Longrightarrow> 2 ^ bitLength n \<le> 2 * n"
proof (induction n rule: bitLength.induct)
  case (1 n)
  show ?case
  proof (cases "n div 2 = 0")
    case True
    with 1 have "n = 1" by linarith
    then show ?thesis by (simp add: bitLength.simps)
  next
    case False
    with 1 have pos: "0 < n div 2" by linarith
    then have "2 ^ bitLength (n div 2) \<le> 2 * (n div 2)" using 1 by simp
    then have "2 * 2 ^ bitLength (n div 2) \<le> 2 * n" by linarith
    then show ?thesis using 1(2) by (subst bitLength.simps) simp
  qed
qed


lemma leadingExponent_test:
  assumes "0 < q"
  shows "(if 0 \<le> k then q * 2 ^ nat k \<le> p else q \<le> p * 2 ^ nat (- k)) \<longleftrightarrow>
         real_of_int q * 2 powi k \<le> real_of_int p"
proof (cases "0 \<le> k")
  case True
  have "real_of_int q * 2 powi k = real_of_int (q * 2 ^ nat k)"
    using True by (simp add: power_int_def)
  then show ?thesis using True by (simp only: if_True of_int_le_iff)
next
  case False
  have "real_of_int q * 2 powi k \<le> real_of_int p \<longleftrightarrow>
        real_of_int q \<le> real_of_int p * 2 ^ nat (- k)"
    using False by (simp add: power_int_def field_simps)
  also have "\<dots> \<longleftrightarrow> real_of_int q \<le> real_of_int (p * 2 ^ nat (- k))"
    by simp
  also have "\<dots> \<longleftrightarrow> q \<le> p * 2 ^ nat (- k)"
    by (simp only: of_int_le_iff)
  finally show ?thesis using False by simp
qed

lemma leadingExponent_bounds:
  assumes "0 < p" "0 < q"
  shows "real_of_int q * 2 powi (leadingExponent p q) \<le> real_of_int p"
    and "real_of_int p < real_of_int q * 2 powi (leadingExponent p q + 1)"
proof -
  define a where "a = bitLength p"
  define b where "b = bitLength q"
  define k where "k = int a - int b"
  have pa: "real_of_int p < 2 ^ a" "(2::real) ^ a \<le> 2 * real_of_int p"
    using bitLength_upper[OF assms(1)] bitLength_lower[OF assms(1)]
    unfolding a_def by (metis of_int_less_iff of_int_numeral of_int_power, metis of_int_le_iff of_int_mult of_int_numeral of_int_power)
  have qb: "real_of_int q < 2 ^ b" "(2::real) ^ b \<le> 2 * real_of_int q"
    using bitLength_upper[OF assms(2)] bitLength_lower[OF assms(2)]
    unfolding b_def by (metis of_int_less_iff of_int_numeral of_int_power, metis of_int_le_iff of_int_mult of_int_numeral of_int_power)
  have pk: "(2::real) powi k = 2 ^ a / 2 ^ b"
    unfolding k_def by (simp add: power_int_diff)
  have pk1: "(2::real) powi (k + 1) = 2 * 2 powi k" "(2::real) powi (k - 1) = 2 powi k / 2"
    by (simp_all add: power_int_add power_int_diff)
  have pos: "(0::real) < 2 powi k" by simp
  have E: "leadingExponent p q = (if real_of_int q * 2 powi k \<le> real_of_int p then k else k - 1)"
    unfolding leadingExponent_def Let_def a_def[symmetric] b_def[symmetric] k_def[symmetric]
    using leadingExponent_test[OF assms(2), of k p] by simp
  show "real_of_int q * 2 powi (leadingExponent p q) \<le> real_of_int p"
  proof (cases "real_of_int q * 2 powi k \<le> real_of_int p")
    case True
    then show ?thesis using E by simp
  next
    case False
    have "real_of_int q * 2 powi (k - 1) \<le> 2 ^ b * (2 ^ a / 2 ^ b) / 2"
      using qb(1) pos by (simp add: pk1 pk field_simps)
    also have "\<dots> = 2 ^ a / 2" by simp
    also have "\<dots> \<le> real_of_int p" using pa(2) by simp
    finally show ?thesis using E False by simp
  qed
  show "real_of_int p < real_of_int q * 2 powi (leadingExponent p q + 1)"
  proof (cases "real_of_int q * 2 powi k \<le> real_of_int p")
    case True
    have "real_of_int p < 2 ^ b * (2 ^ a / 2 ^ b)" using pa(1) by simp
    also have "\<dots> \<le> (2 * real_of_int q) * (2 ^ a / 2 ^ b)"
      using qb(2) by (intro mult_right_mono) simp_all
    also have "\<dots> = real_of_int q * 2 powi (k + 1)" by (simp add: pk1 pk)
    finally show ?thesis using E True by simp
  next
    case False
    then show ?thesis using E by simp
  qed
qed


lemma leadingExponent_of_multiple:
  assumes "0 < q" "1 \<le> m" "m < 2 ^ 53"
  shows "0 \<le> leadingExponent (m * q) q" and "leadingExponent (m * q) q \<le> 52"
proof -
  let ?E = "leadingExponent (m * q) q"
  have p: "0 < m * q" using assms by simp
  have rq: "0 < real_of_int q" using assms(1) by simp
  from leadingExponent_bounds[OF p assms(1)]
  have lo: "real_of_int q * 2 powi ?E \<le> real_of_int m * real_of_int q"
   and hi: "real_of_int m * real_of_int q < real_of_int q * 2 powi (?E + 1)"
    by simp_all
  from lo rq have "2 powi ?E \<le> real_of_int m" by (simp add: mult.commute)
  also have "real_of_int m < 2 ^ 53" using assms(3) by (metis of_int_less_iff of_int_numeral of_int_power)
  finally have "(2::real) powi ?E < 2 powi 53" by simp
  then have "?E < 53" by (rule power_int_le_imp_less_exp[rotated]) simp_all
  then show "?E \<le> 52" by simp
  from hi rq have up: "real_of_int m < 2 powi (?E + 1)" by (simp add: mult.commute)
  show "0 \<le> ?E"
  proof (rule ccontr)
    assume "\<not> 0 \<le> ?E"
    then have "?E + 1 \<le> 0" by simp
    then have "(2::real) powi (?E + 1) \<le> 2 powi 0"
      by (rule power_int_increasing) simp
    with up assms(2) show False by simp
  qed
qed

lemma mathRound_exact_quotient:
  assumes "0 < q" "1 \<le> m" "m < 2 ^ 53"
  shows "mathRound (jsDivide (m * q) q) = m"
proof -
  let ?E = "leadingExponent (m * q) q"
  have E: "0 \<le> ?E" "?E \<le> 52" using leadingExponent_of_multiple[OF assms] by simp_all
  have p: "m * q \<noteq> 0" "0 < m * q" using assms by simp_all
  have u: "max (?E - 52) (- 1074) = ?E - 52" using E by simp
  have sg: "sgn (m * q) * sgn q = 1" using assms by (simp add: sgn_mult)
  have ab: "\<bar>m * q\<bar> = m * q" "\<bar>q\<bar> = q" using assms by (simp_all add: abs_mult)
  show ?thesis
  proof (cases "?E = 52")
    case True
    have "nearestDouble (m * q) q = (m, 0)"
      using p(1) True assms(1) by (simp add: nearestDouble_def Let_def roundHalfEven_def)
    then show ?thesis by (simp add: jsDivide_def ab sg mathRound_def)
  next
    case False
    with E have neg: "\<not> 0 \<le> ?E - 52" by simp
    define j where "j = nat (- (?E - 52))"
    have "m * q * 2 ^ j = (m * 2 ^ j) * q" by simp
    then have "roundHalfEven (m * q * 2 ^ j) q = m * 2 ^ j"
      using assms(1) by (simp only: roundHalfEven_def Let_def) simp
    then have "nearestDouble (m * q) q = (m * 2 ^ j, ?E - 52)"
      using p(1) neg u unfolding nearestDouble_def Let_def j_def by simp
    then have "mathRound (jsDivide (m * q) q) = (2 * (m * 2 ^ j) + 2 ^ j) div (2 * 2 ^ j)"
      using neg by (simp add: jsDivide_def ab sg mathRound_def j_def)
    also have "2 * (m * 2 ^ j) + 2 ^ j = (2 * m + 1) * (2::int) ^ j" by (simp add: algebra_simps)
    also have "((2 * m + 1) * (2::int) ^ j) div (2 * 2 ^ j) = (2 * m + 1) div 2"
      by simp
    also have "\<dots> = m" by simp
    finally show ?thesis .
  qed
qed

subsection \<open>Break reminder\<close>

lemma getBreakIntervalMs_minutes:
  "\<exists>mins. 1 \<le> mins \<and> getBreakIntervalMs st = mins * 60000"
  by (auto simp: getBreakIntervalMs_def split: option.splits)

lemma resetBreakTimer_arms:
  "breakTimer (resetBreakTimer st mgr) = Some (getBreakIntervalMs st) \<and>
   lastBreakNotification (resetBreakTimer st mgr) = lastBreakNotification mgr"
  by (simp add: resetBreakTimer_def clearBreakTimer_def)

text \<open>
  C7. When the task armed with \<open>intervalMs\<close> runs less than five minutes after the last
  break notification shown, the manager is left as it is (so no timer is armed and the
  time of the last notification stays) and nothing is shown. Otherwise one notification
  is shown, titled \<^verbatim>\<open>Time for a break!\<close>, whose body names
  \<^verbatim>\<open>Math.round(intervalMs / 60000)\<close> minutes, and the time of the firing becomes the
  time of the last notification; no timer is armed here either. An interval of \<open>mins\<close>
  whole minutes, which is what \<^verbatim>\<open>getBreakIntervalMs\<close> returns, gives the number
  \<open>mins\<close> in the body.
\<close>

theorem break_reminder_rate_limit:
  assumes "breakTimer mgr = Some intervalMs"
  shows "(now clock - lastBreakNotification mgr < 300000 \<longrightarrow>
            breakTaskFires clock mgr = (mgr, [])) \<and>
         (300000 \<le> now clock - lastBreakNotification mgr \<longrightarrow>
            breakTaskFires clock mgr =
              (mgr\<lparr>lastBreakNotification := now clock\<rparr>,
               [\<lparr>title = ''Time for a break!'',
                 body = ''You'' @ [CHR 0x27] @ ''ve been working for '' @
                        decimalInt (mathRound (jsDivide intervalMs 60000)) @
                        '' minutes.''\<rparr>])) \<and>
         (1 \<le> mins \<and> mins < 2 ^ 53 \<and> intervalMs = mins * 60000 \<longrightarrow>
            mathRound (jsDivide intervalMs 60000) = mins)"
proof (intro conjI impI)
  assume "now clock - lastBreakNotification mgr < 300000"
  then show "breakTaskFires clock mgr = (mgr, [])"
    using assms by (simp add: breakTaskFires_def fireBreakReminder_def)
next
  assume "300000 \<le> now clock - lastBreakNotification mgr"
  then show "breakTaskFires clock mgr =
      (mgr\<lparr>lastBreakNotification := now clock\<rparr>,
       [\<lparr>title = ''Time for a break!'',
         body = ''You'' @ [CHR 0x27] @ ''ve been working for '' @
                decimalInt (mathRound (jsDivide intervalMs 60000)) @ '' minutes.''\<rparr>])"
    using assms by (simp add: breakTaskFires_def fireBreakReminder_def)
next
  assume "1 \<le> mins \<and> mins < 2 ^ 53 \<and> intervalMs = mins * 60000"
  then show "mathRound (jsDivide intervalMs 60000) = mins"
    using mathRound_exact_quotient[of 60000 mins] by simp
qed

text \<open>
  With \<^verbatim>\<open>break_interval_minutes\<close> 30 and the last break notification shown at minute 30:
  a firing at minute 33 is dropped, a firing at minute 65 is shown.
\<close>

theorem break_reminder_rate_limit_witness:
  "breakTimer (resetBreakTimer (noSettings\<lparr>plain := [''break_interval_minutes'' \<mapsto> ''30'']\<rparr>)
      (newManager\<lparr>lastBreakNotification := 1800000\<rparr>)) = Some 1800000 \<and>
   breakTaskFires (sampleClock\<lparr>now := 1980000\<rparr>)
     (resetBreakTimer (noSettings\<lparr>plain := [''break_interval_minutes'' \<mapsto> ''30'']\<rparr>)
        (newManager\<lparr>lastBreakNotification := 1800000\<rparr>)) =
     (resetBreakTimer (noSettings\<lparr>plain := [''break_interval_minutes'' \<mapsto> ''30'']\<rparr>)
        (newManager\<lparr>lastBreakNotification := 1800000\<rparr>), []) \<and>
   breakTaskFires (sampleClock\<lparr>now := 3900000\<rparr>)
     (resetBreakTimer (noSettings\<lparr>plain := [''break_interval_minutes'' \<mapsto> ''30'']\<rparr>)
        (newManager\<lparr>lastBreakNotification := 1800000\<rparr>)) =
     (newManager\<lparr>breakTimer := Some 1800000, lastBreakNotification := 3900000\<rparr>,
      [\<lparr>title = ''Time for a break!'',
        body = ''You'' @ [CHR 0x27] @ ''ve been working for 30 minutes.''\<rparr>])"
proof -
  define st where "st = noSettings\<lparr>plain := [''break_interval_minutes'' \<mapsto> ''30'']\<rparr>"
  define mgr where "mgr = resetBreakTimer st (newManager\<lparr>lastBreakNotification := 1800000\<rparr>)"
  have iv: "getBreakIntervalMs st = 1800000"
    by (simp add: st_def getBreakIntervalMs_def parseSetting_def noSettings_def parseInt_def
          isWhiteSpace_def isDigit_def digitValue_def)
  have mgr: "mgr = newManager\<lparr>breakTimer := Some 1800000, lastBreakNotification := 1800000\<rparr>"
    using iv by (simp add: mgr_def resetBreakTimer_def clearBreakTimer_def newManager_def)
  have armed: "breakTimer mgr = Some 1800000"
    by (simp add: mgr)
  have last: "lastBreakNotification mgr = 1800000"
    by (simp add: mgr)
  have thirty: "decimalInt 30 = ''30''"
    by (simp add: decimalInt_def decimalNat.simps)
  have "now (sampleClock\<lparr>now := 1980000\<rparr>) - lastBreakNotification mgr < 300000"
    by (simp add: last)
  with break_reminder_rate_limit[OF armed, of "sampleClock\<lparr>now := 1980000\<rparr>" 30]
  have early: "breakTaskFires (sampleClock\<lparr>now := 1980000\<rparr>) mgr = (mgr, [])"
    by blast
  have "300000 \<le> now (sampleClock\<lparr>now := 3900000\<rparr>) - lastBreakNotification mgr"
       "1 \<le> (30::int) \<and> (30::int) < 2 ^ 53 \<and> (1800000::int) = 30 * 60000"
    by (simp_all add: last)
  with break_reminder_rate_limit[OF armed, of "sampleClock\<lparr>now := 3900000\<rparr>" 30]
  have "breakTaskFires (sampleClock\<lparr>now := 3900000\<rparr>) mgr =
          (mgr\<lparr>lastBreakNotification := now (sampleClock\<lparr>now := 3900000\<rparr>)\<rparr>,
           [\<lparr>title = ''Time for a break!'',
             body = ''You'' @ [CHR 0x27] @ ''ve been working for '' @
                    decimalInt (mathRound (jsDivide 1800000 60000)) @ '' minutes.''\<rparr>])"
       "mathRound (jsDivide 1800000 60000) = 30"
    by blast+
  then have late: "breakTaskFires (sampleClock\<lparr>now := 3900000\<rparr>) mgr =
     (newManager\<lparr>breakTimer := Some 1800000, lastBreakNotification := 3900000\<rparr>,
      [\<lparr>title = ''Time for a break!'',
        body = ''You'' @ [CHR 0x27] @ ''ve been working for 30 minutes.''\<rparr>])"
    by (simp add: thirty mgr)
  from armed early late show ?thesis
    unfolding mgr_def st_def by (intro conjI)
qed

subsection \<open>Daily summary\<close>

text \<open>
  C5, as the code has it. When the summary task runs with summaries enabled and no
  summary shown yet today, and less than a minute has been tracked today, no
  notification is shown; the two fields that record a shown summary have been written
  before the tracked time is looked at, so \<open>dailySummaryShownToday\<close> is true and
  \<open>lastSummaryDate\<close> is today afterwards.
\<close>

theorem low_activity_skip_marks_shown:
  assumes "isDailySummaryEnabled st"
      and "\<not> (dailySummaryShownToday mgr \<and> lastSummaryDate mgr = Some (today clock))"
      and "getTotalTrackedTime (startOfToday clock) (now clock) db < 60000"
  shows "fireDailySummary clock db st mgr =
           Inr (mgr\<lparr>dailySummaryShownToday := True, lastSummaryDate := Some (today clock)\<rparr>,
                [])"
  using assms by (auto simp: fireDailySummary_def Let_def)

theorem low_activity_skip_marks_shown_witness:
  "isDailySummaryEnabled noSettings \<and>
   dailySummaryShownToday newManager = False \<and>
   getTotalTrackedTime (startOfToday sampleClock) (now sampleClock)
     (run [InsertActivity (sample ''Editor'' ''development'' 1000 45000)] (initDatabase [])) =
     45000 \<and>
   fireDailySummary sampleClock
     (run [InsertActivity (sample ''Editor'' ''development'' 1000 45000)] (initDatabase []))
     noSettings newManager =
     Inr (newManager\<lparr>dailySummaryShownToday := True,
                      lastSummaryDate := Some ''Mon Nov 02 2026''\<rparr>, [])"
proof -
  let ?db = "run [InsertActivity (sample ''Editor'' ''development'' 1000 45000)] (initDatabase [])"
  have en: "isDailySummaryEnabled noSettings"
    by (simp add: isDailySummaryEnabled_def isEnabled_def noSettings_def)
  have fresh: "\<not> (dailySummaryShownToday newManager \<and>
      lastSummaryDate newManager = Some (today sampleClock))"
    by (simp add: newManager_def)
  have total: "getTotalTrackedTime (startOfToday sampleClock) (now sampleClock) ?db = 45000"
    by (simp add: getTotalTrackedTime_def inRange_def sampleClock_def run_def sample_def
          initDatabase_def insertActivity_def getOrCreateSession_def openSessionFor_def
          createSession_def updateSession_def updateRow_def activityRow_def)
  have low: "getTotalTrackedTime (startOfToday sampleClock) (now sampleClock) ?db < 60000"
    using total by simp
  from low_activity_skip_marks_shown[OF en fresh low] en total show ?thesis
    by (simp add: newManager_def sampleClock_def)
qed

text \<open>
  With 45 seconds tracked today, \<open>dailySummaryShownToday\<close> does not remain false and
  \<open>lastSummaryDate\<close> does not remain unset.
\<close>

theorem low_activity_skip_counterexample:
  "isDailySummaryEnabled noSettings \<and>
   dailySummaryShownToday newManager = False \<and> lastSummaryDate newManager = None \<and>
   getTotalTrackedTime (startOfToday sampleClock) (now sampleClock)
     (run [InsertActivity (sample ''Editor'' ''development'' 1000 45000)] (initDatabase [])) =
     45000 \<and>
   map_sum id (\<lambda>r. (dailySummaryShownToday (fst r), lastSummaryDate (fst r), snd r))
     (fireDailySummary sampleClock
        (run [InsertActivity (sample ''Editor'' ''development'' 1000 45000)] (initDatabase []))
        noSettings newManager) =
     Inr (True, Some ''Mon Nov 02 2026'', [])"
  by (simp add: fireDailySummary_def isDailySummaryEnabled_def isEnabled_def noSettings_def
        newManager_def getTotalTrackedTime_def inRange_def sampleClock_def run_def sample_def
        initDatabase_def insertActivity_def getOrCreateSession_def openSessionFor_def
        createSession_def updateSession_def updateRow_def activityRow_def)

subsection \<open>The category breakdown\<close>




text \<open>
  No row answers to a name: the comparison of \<^verbatim>\<open>c.category_name\<close> with a string fails on
  every row, whatever has been tracked.
\<close>

lemma currentMs_named: "currentMs breakdown (Some name) = 0"
proof -
  have "find (\<lambda>c. category_name c = Some name) breakdown = None"
    by (simp add: find_None_iff category_name_def)
  then show ?thesis by (simp add: currentMs_def)
qed

subsection \<open>Goals\<close>

lemma set_setAdd: "set (setAdd x xs) = insert x (set xs)"
  by (auto simp: setAdd_def)

lemma set_newSet_from: "set (foldl (\<lambda>s x. setAdd x s) acc xs) = set acc \<union> set xs"
  by (induction xs arbitrary: acc) (auto simp: set_setAdd)

lemma set_newSet: "set (newSet xs) = set xs"
  by (simp add: newSet_def set_newSet_from)

lemma notified_after_mark:
  "set (getNotifiedGoalsToday clock (markGoalNotified clock name st)) =
     insert name (set (getNotifiedGoalsToday clock st))"
  by (cases name)
     (simp_all add: markGoalNotified_def getNotifiedGoalsToday_def set_newSet set_setAdd)

lemma mark_keeps_settings:
  "daily_goals (markGoalNotified clock name st) = daily_goals st \<and>
   plain (markGoalNotified clock name st) = plain st"
  by (simp add: markGoalNotified_def)

lemma notified_same_day:
  "today clock2 = today clock1 \<Longrightarrow>
   getNotifiedGoalsToday clock2 st = getNotifiedGoalsToday clock1 st"
  by (simp add: getNotifiedGoalsToday_def split: option.splits document.splits)

text \<open>The loop on a list of well-formed goals: no throw, and the goals that pass fire.\<close>

lemma goalLoop_goals:
  "goalLoop clock breakdown notifiedToday (map goalElement goals) (st, fired) =
     Inr (foldl (\<lambda>s g. markGoalNotified clock (Some (categoryName g)) s) st
            (filter (goalFires breakdown notifiedToday) goals),
          fired @ filter (goalFires breakdown notifiedToday) goals)"
proof (induction goals arbitrary: st fired)
  case Nil
  show ?case by simp
next
  case (Cons g goals)
  have g: "\<lparr>categoryName = categoryName g, targetMs = targetMs g\<rparr> = g" by simp
  have head: "map goalElement (g # goals) =
      Element (Some (categoryName g)) (Some (targetMs g)) # map goalElement goals"
    by (simp add: goalElement_def)
  show ?case
  proof (cases "goalFires breakdown notifiedToday g")
    case True
    then have "Some (categoryName g) \<notin> set notifiedToday"
      and "targetMs g \<le> currentMs breakdown (Some (categoryName g))"
      by (simp_all add: goalFires_def)
    then show ?thesis
      unfolding head using True by (simp add: Cons.IH g Let_def)
  next
    case False
    then have "Some (categoryName g) \<in> set notifiedToday \<or>
        \<not> targetMs g \<le> currentMs breakdown (Some (categoryName g))"
      by (simp add: goalFires_def)
    then show ?thesis
      unfolding head using False by (auto simp: Cons.IH)
  qed
qed

text \<open>The loop on any list of elements: a goal that fires has a target of 0 or less.\<close>

lemma shownBy_Inr: "shownBy (Inr acc) = snd acc"
  by (cases acc) (simp add: shownBy_def)

lemma shownBy_Inl: "shownBy (Inl (e, acc)) = snd acc"
  by (cases acc) (simp add: shownBy_def)


lemma settingsAfter_Inr: "settingsAfter (Inr acc) = fst acc"
  by (cases acc) (simp add: settingsAfter_def)

lemma settingsAfter_Inl: "settingsAfter (Inl (e, acc)) = fst acc"
  by (cases acc) (simp add: settingsAfter_def)

text \<open>One round of the loop on an element that is not \<^verbatim>\<open>null\<close>: it goes on with the state
  as it is, or throws after marking, or marks, shows and goes on.\<close>

lemma goalLoop_Element_cases:
  obtains
    (skip) "goalLoop clock breakdown notifiedToday (Element name target # rest) acc =
              goalLoop clock breakdown notifiedToday rest acc"
           "\<not> (\<exists>n t. name = Some n \<and> target = Some t \<and> Some n \<notin> set notifiedToday \<and> t \<le> 0)"
           "\<not> (\<exists>t. name = None \<and> target = Some t \<and> t \<le> currentMs breakdown None)"
  | (throw) t where "name = None" "target = Some t" "t \<le> currentMs breakdown None"
           "goalLoop clock breakdown notifiedToday (Element name target # rest) acc =
              Inl (TypeError, markGoalNotified clock None (fst acc), snd acc)"
  | (fire) n t where "name = Some n" "target = Some t" "Some n \<notin> set notifiedToday" "t \<le> 0"
           "goalLoop clock breakdown notifiedToday (Element name target # rest) acc =
              goalLoop clock breakdown notifiedToday rest
                (markGoalNotified clock (Some n) (fst acc),
                 snd acc @ [\<lparr>categoryName = n, targetMs = t\<rparr>])"
proof (cases target)
  case None
  then show ?thesis using skip by simp
next
  case (Some t)
  show ?thesis
  proof (cases name)
    case None
    show ?thesis
    proof (cases "t \<le> currentMs breakdown None")
      case True
      with None Some show ?thesis using throw[of t] by (simp add: Let_def)
    next
      case False
      with None Some show ?thesis using skip by simp
    qed
  next
    case n: (Some n)
    show ?thesis
    proof (cases "Some n \<notin> set notifiedToday \<and> t \<le> 0")
      case True
      with n Some show ?thesis using fire[of n t] by (simp add: currentMs_named Let_def)
    next
      case False
      with n Some show ?thesis using skip by (auto simp: currentMs_named)
    qed
  qed
qed

lemma goalLoop_extends:
  "\<exists>extra. shownBy (goalLoop clock breakdown notifiedToday elements acc) = snd acc @ extra"
proof (induction elements arbitrary: acc)
  case Nil
  show ?case by (simp add: shownBy_Inr)
next
  case (Cons e elements)
  show ?case
  proof (cases e)
    case NullElement
    then show ?thesis by (simp add: shownBy_Inl)
  next
    case (Element name target)
    show ?thesis
    proof (cases rule: goalLoop_Element_cases[of clock breakdown notifiedToday name target elements acc])
      case skip
      with Cons.IH[of acc] show ?thesis unfolding Element by simp
    next
      case (throw t)
      then show ?thesis unfolding Element by (simp add: shownBy_def)
    next
      case (fire n t)
      from Cons.IH[of "(markGoalNotified clock (Some n) (fst acc),
                 snd acc @ [\<lparr>categoryName = n, targetMs = t\<rparr>])"]
      obtain extra where "shownBy (goalLoop clock breakdown notifiedToday elements
          (markGoalNotified clock (Some n) (fst acc),
           snd acc @ [\<lparr>categoryName = n, targetMs = t\<rparr>])) =
          snd acc @ (\<lparr>categoryName = n, targetMs = t\<rparr> # extra)"
        by auto
      then show ?thesis unfolding Element fire(5) by (rule exI)
    qed
  qed
qed

lemma goalLoop_keeps_settings:
  "daily_goals (settingsAfter (goalLoop clock breakdown notifiedToday elements acc)) =
     daily_goals (fst acc) \<and>
   plain (settingsAfter (goalLoop clock breakdown notifiedToday elements acc)) = plain (fst acc)"
proof (induction elements arbitrary: acc)
  case Nil
  show ?case by (simp add: settingsAfter_Inr)
next
  case (Cons e elements)
  show ?case
  proof (cases e)
    case NullElement
    then show ?thesis by (simp add: settingsAfter_Inl)
  next
    case (Element name target)
    show ?thesis
    proof (cases rule: goalLoop_Element_cases[of clock breakdown notifiedToday name target elements acc])
      case skip
      with Cons.IH[of acc] show ?thesis unfolding Element by simp
    next
      case (throw t)
      then show ?thesis unfolding Element by (simp add: settingsAfter_def mark_keeps_settings)
    next
      case (fire n t)
      from Cons.IH[of "(markGoalNotified clock (Some n) (fst acc),
                 snd acc @ [\<lparr>categoryName = n, targetMs = t\<rparr>])"]
      show ?thesis unfolding Element fire(5) by (simp add: mark_keeps_settings)
    qed
  qed
qed

text \<open>What the loop shows, on an array in which no name occurs twice: goals of the array
  with names that differ, none of them in the set read before the loop, all of them in
  the ledger afterwards.\<close>

lemma goalLoop_fired:
  assumes "distinct (List.map_filter elementName elements)"
  shows "\<exists>extra.
     shownBy (goalLoop clock breakdown notifiedToday elements acc) = snd acc @ extra \<and>
     distinct (map categoryName extra) \<and>
     set (map categoryName extra) \<subseteq> set (List.map_filter elementName elements) \<and>
     (\<forall>g \<in> set extra. Some (categoryName g) \<notin> set notifiedToday) \<and>
     set (getNotifiedGoalsToday clock (fst acc)) \<union> (\<lambda>g. Some (categoryName g)) ` set extra
       \<subseteq> set (getNotifiedGoalsToday clock
                (settingsAfter (goalLoop clock breakdown notifiedToday elements acc)))"
  using assms
proof (induction elements arbitrary: acc)
  case Nil
  show ?case by (simp add: shownBy_Inr settingsAfter_Inr)
next
  case (Cons e elements)
  show ?case
  proof (cases e)
    case NullElement
    then show ?thesis by (simp add: shownBy_Inl settingsAfter_Inl)
  next
    case (Element name target)
    have name: "elementName e = name"
      by (simp add: Element elementName_def)
    have d: "distinct (List.map_filter elementName elements)"
      using Cons.prems name by (cases name) simp_all
    show ?thesis
    proof (cases rule: goalLoop_Element_cases[of clock breakdown notifiedToday name target elements acc])
      case skip
      from Cons.IH[OF d, of acc] obtain extra where
        "shownBy (goalLoop clock breakdown notifiedToday elements acc) = snd acc @ extra"
        "distinct (map categoryName extra)"
        "set (map categoryName extra) \<subseteq> set (List.map_filter elementName elements)"
        "\<forall>g \<in> set extra. Some (categoryName g) \<notin> set notifiedToday"
        "set (getNotifiedGoalsToday clock (fst acc)) \<union> (\<lambda>g. Some (categoryName g)) ` set extra
           \<subseteq> set (getNotifiedGoalsToday clock
                (settingsAfter (goalLoop clock breakdown notifiedToday elements acc)))"
        by blast
      moreover have "set (List.map_filter elementName elements) \<subseteq>
          set (List.map_filter elementName (e # elements))"
        by (auto simp: split: option.splits)
      moreover have "goalLoop clock breakdown notifiedToday (e # elements) acc =
          goalLoop clock breakdown notifiedToday elements acc"
        by (simp only: Element skip(1))
      ultimately show ?thesis
        by (intro exI[of _ extra]) (simp only:, blast)
    next
      case (throw t)
      have "set (getNotifiedGoalsToday clock (fst acc)) \<subseteq>
          set (getNotifiedGoalsToday clock (markGoalNotified clock None (fst acc)))"
        by (auto simp: notified_after_mark)
      moreover have "goalLoop clock breakdown notifiedToday (e # elements) acc =
          Inl (TypeError, markGoalNotified clock None (fst acc), snd acc)"
        by (simp only: Element throw(4))
      ultimately show ?thesis
        by (intro exI[of _ "[]"]) (simp add: shownBy_def settingsAfter_def)
    next
      case (fire n t)
      let ?g = "\<lparr>categoryName = n, targetMs = t\<rparr>"
      let ?acc = "(markGoalNotified clock (Some n) (fst acc), snd acc @ [?g])"
      from Cons.IH[OF d, of ?acc] obtain extra where x:
        "shownBy (goalLoop clock breakdown notifiedToday elements ?acc) = snd ?acc @ extra"
        "distinct (map categoryName extra)"
        "set (map categoryName extra) \<subseteq> set (List.map_filter elementName elements)"
        "\<forall>g \<in> set extra. Some (categoryName g) \<notin> set notifiedToday"
        "set (getNotifiedGoalsToday clock (fst ?acc)) \<union> (\<lambda>g. Some (categoryName g)) ` set extra
           \<subseteq> set (getNotifiedGoalsToday clock
                (settingsAfter (goalLoop clock breakdown notifiedToday elements ?acc)))"
        by blast
      have names: "List.map_filter elementName (e # elements) =
          n # List.map_filter elementName elements"
        using name fire(1) by simp
      have fresh: "n \<notin> set (List.map_filter elementName elements)"
        using Cons.prems unfolding names by simp
      have c1: "shownBy (goalLoop clock breakdown notifiedToday elements ?acc) =
          snd acc @ (?g # extra)"
        using x(1) by simp
      have c2: "distinct (map categoryName (?g # extra))"
        using x(2) x(3) fresh by auto
      have c3: "set (map categoryName (?g # extra)) \<subseteq> set (n # List.map_filter elementName elements)"
        using x(3) by auto
      have c4: "\<forall>g \<in> set (?g # extra). Some (categoryName g) \<notin> set notifiedToday"
        using x(4) fire(3) by simp
      have "set (getNotifiedGoalsToday clock (fst ?acc)) =
          insert (Some n) (set (getNotifiedGoalsToday clock (fst acc)))"
        by (simp add: notified_after_mark)
      with x(5) have c5: "set (getNotifiedGoalsToday clock (fst acc)) \<union>
          (\<lambda>g. Some (categoryName g)) ` set (?g # extra)
           \<subseteq> set (getNotifiedGoalsToday clock
                (settingsAfter (goalLoop clock breakdown notifiedToday elements ?acc)))"
        by auto
      have eq: "goalLoop clock breakdown notifiedToday (e # elements) acc =
          goalLoop clock breakdown notifiedToday elements ?acc"
        by (simp only: Element fire(5))
      from c1 c2 c3 c4 c5 show ?thesis
        unfolding eq names by (intro exI[of _ "?g # extra"] conjI)
    qed
  qed
qed

text \<open>The loop run again with the same breakdown, on a set that holds what the first run
  read and what it marked, shows nothing.\<close>

lemma goalLoop_again:
  assumes "shownBy (goalLoop clock breakdown notifiedToday elements acc) = snd acc @ extra"
      and "set notifiedToday \<union> (\<lambda>g. Some (categoryName g)) ` set extra \<subseteq> set notifiedAgain"
  shows "shownBy (goalLoop clock' breakdown notifiedAgain elements acc') = snd acc'"
  using assms
proof (induction elements arbitrary: acc acc' extra)
  case Nil
  show ?case by (simp add: shownBy_Inr)
next
  case (Cons e elements)
  show ?case
  proof (cases e)
    case NullElement
    then show ?thesis by (simp add: shownBy_Inl)
  next
    case (Element name target)
    show ?thesis
    proof (cases rule: goalLoop_Element_cases[of clock breakdown notifiedToday name target elements acc])
      case first: skip
      from Cons.prems(1) have run1:
        "shownBy (goalLoop clock breakdown notifiedToday elements acc) = snd acc @ extra"
        unfolding Element first(1) .
      show ?thesis
      proof (cases rule: goalLoop_Element_cases[of clock' breakdown notifiedAgain name target elements acc'])
        case skip
        from Cons.IH[OF run1 Cons.prems(2), of acc'] show ?thesis
          unfolding Element skip(1) .
      next
        case (throw t)
        with first(3) show ?thesis by simp
      next
        case (fire n t)
        with Cons.prems(2) have "Some n \<notin> set notifiedToday" by blast
        with fire first(2) show ?thesis by simp
      qed
    next
      case (throw t)
      have "\<exists>t. target = Some t \<and> t \<le> currentMs breakdown None"
        using throw by simp
      then have "goalLoop clock' breakdown notifiedAgain (e # elements) acc' =
          Inl (TypeError, markGoalNotified clock' None (fst acc'), snd acc')"
        using throw(1) unfolding Element by (auto simp: Let_def)
      then show ?thesis by (simp add: shownBy_def)
    next
      case first: (fire n t)
      let ?g = "\<lparr>categoryName = n, targetMs = t\<rparr>"
      let ?acc = "(markGoalNotified clock (Some n) (fst acc), snd acc @ [?g])"
      from goalLoop_extends[of clock breakdown notifiedToday elements ?acc]
      obtain rest where rest:
        "shownBy (goalLoop clock breakdown notifiedToday elements ?acc) = snd ?acc @ rest"
        by blast
      with Cons.prems(1) have ex: "extra = ?g # rest"
        unfolding Element first(5) by simp
      have sub: "set notifiedToday \<union> (\<lambda>g. Some (categoryName g)) ` set rest \<subseteq> set notifiedAgain"
        using Cons.prems(2) ex by auto
      have known: "Some n \<in> set notifiedAgain"
        using Cons.prems(2) ex by auto
      have "goalLoop clock' breakdown notifiedAgain (e # elements) acc' =
          goalLoop clock' breakdown notifiedAgain elements acc'"
        using known unfolding Element by (simp add: first(1))
      with Cons.IH[OF rest sub, of acc'] show ?thesis by simp
    qed
  qed
qed

lemma checkGoals_shown:
  "shownBy (checkGoals clock db st) =
     map goalNotification (shownBy (checkGoalsFired clock db st))"
  by (simp add: checkGoals_def shownBy_def split: sum.splits prod.splits)

lemma checkGoals_settings:
  "settingsAfter (checkGoals clock db st) = settingsAfter (checkGoalsFired clock db st)"
  by (simp add: checkGoals_def settingsAfter_def split: sum.splits prod.splits)

lemma checkGoalsFired_goals:
  assumes "isEnabled st" "daily_goals st = Some (Parsed (map goalElement goals))"
  shows "checkGoalsFired clock db st =
     Inr (foldl (\<lambda>s g. markGoalNotified clock (Some (categoryName g)) s) st
            (filter (goalFires (getCategoryBreakdown (startOfToday clock) (now clock) db)
                       (getNotifiedGoalsToday clock st)) goals),
          filter (goalFires (getCategoryBreakdown (startOfToday clock) (now clock) db)
                    (getNotifiedGoalsToday clock st)) goals)"
  using assms by (simp add: checkGoalsFired_def Let_def goalLoop_goals)




lemma today_sampleClock: "today sampleClock = ''Mon Nov 02 2026''"
  by (simp add: sampleClock_def)

lemma hoursText_zero: "hoursText 0 = ''0''"
  by (simp add: hoursText_def stripDotZero_def toFixed1_def jsDivide_def nearestDouble_def
        decimalNat.simps)



text \<open>
  C4. Take settings whose goal array names no category twice, and two calls of
  \<^verbatim>\<open>checkGoals\<close> on the same local day, the second on the settings the first left,
  each ending by return or by throw. The notifications shown by the two calls are those
  of the goals that fired, one each, and no category name occurs twice among the goals
  that fired in the two calls together, whatever the activity data and the time of day
  at either call. When the data and the clock are the same at both calls, the second call
  shows nothing.
\<close>

theorem check_goals_twice:
  assumes "today clock2 = today clock1"
      and "distinct (goalNames st)"
  shows "shownBy (checkGoals clock1 db1 st) @
           shownBy (checkGoals clock2 db2 (settingsAfter (checkGoals clock1 db1 st))) =
         map goalNotification
           (shownBy (checkGoalsFired clock1 db1 st) @
            shownBy (checkGoalsFired clock2 db2
                       (settingsAfter (checkGoalsFired clock1 db1 st)))) \<and>
         distinct (map categoryName
           (shownBy (checkGoalsFired clock1 db1 st) @
            shownBy (checkGoalsFired clock2 db2
                       (settingsAfter (checkGoalsFired clock1 db1 st))))) \<and>
         (clock2 = clock1 \<and> db2 = db1 \<longrightarrow>
            shownBy (checkGoals clock2 db2 (settingsAfter (checkGoals clock1 db1 st))) = [])"
proof -
  let ?st1 = "settingsAfter (checkGoalsFired clock1 db1 st)"
  let ?f1 = "shownBy (checkGoalsFired clock1 db1 st)"
  let ?f2 = "shownBy (checkGoalsFired clock2 db2 ?st1)"
  have shown: "shownBy (checkGoals clock1 db1 st) @
      shownBy (checkGoals clock2 db2 (settingsAfter (checkGoals clock1 db1 st))) =
      map goalNotification (?f1 @ ?f2)"
    by (simp add: checkGoals_shown checkGoals_settings)
  have shown2: "shownBy (checkGoals clock2 db2 (settingsAfter (checkGoals clock1 db1 st))) =
      map goalNotification ?f2"
    by (simp add: checkGoals_shown checkGoals_settings)
  show ?thesis
  proof (cases "\<exists>elements. isEnabled st \<and> daily_goals st = Some (Parsed elements)")
    case False
    then have r: "\<And>clock db. checkGoalsFired clock db st = Inr (st, [])"
      by (auto simp: checkGoalsFired_def split: option.splits document.splits)
    have s1: "?st1 = st" and f1: "?f1 = []"
      by (simp_all add: r settingsAfter_def shownBy_def)
    have f2: "?f2 = []"
      unfolding s1 by (simp add: r shownBy_def)
    have "shownBy (checkGoals clock2 db2 (settingsAfter (checkGoals clock1 db1 st))) = []"
      unfolding shown2 f2 by simp
    then have third: "clock2 = clock1 \<and> db2 = db1 \<longrightarrow>
        shownBy (checkGoals clock2 db2 (settingsAfter (checkGoals clock1 db1 st))) = []"
      by (rule impI)
    have second: "distinct (map categoryName (?f1 @ ?f2))"
      by (simp add: f1 f2)
    from shown second third show ?thesis by (intro conjI)
  next
    case True
    then obtain elements where en: "isEnabled st"
      and dg: "daily_goals st = Some (Parsed elements)"
      by blast
    have d: "distinct (List.map_filter elementName elements)"
      using assms(2) by (simp add: goalNames_def dg)
    let ?bd1 = "getCategoryBreakdown (startOfToday clock1) (now clock1) db1"
    let ?bd2 = "getCategoryBreakdown (startOfToday clock2) (now clock2) db2"
    let ?nt1 = "getNotifiedGoalsToday clock1 st"
    let ?nt2 = "getNotifiedGoalsToday clock2 ?st1"
    have r1: "checkGoalsFired clock1 db1 st = goalLoop clock1 ?bd1 ?nt1 elements (st, [])"
      using en dg by (simp add: checkGoalsFired_def Let_def)
    have en1: "isEnabled ?st1" and dg1: "daily_goals ?st1 = Some (Parsed elements)"
      using en dg goalLoop_keeps_settings[of clock1 ?bd1 ?nt1 elements "(st, [])"]
      by (simp_all add: r1 isEnabled_def)
    have r2: "checkGoalsFired clock2 db2 ?st1 = goalLoop clock2 ?bd2 ?nt2 elements (?st1, [])"
      using en1 dg1 by (simp add: checkGoalsFired_def Let_def)
    from goalLoop_fired[OF d, of clock1 ?bd1 ?nt1 "(st, [])"]
    have d1: "distinct (map categoryName ?f1)"
      and marked: "set ?nt1 \<union> (\<lambda>g. Some (categoryName g)) ` set ?f1 \<subseteq>
          set (getNotifiedGoalsToday clock1 ?st1)"
      unfolding r1[symmetric] by auto
    have nt2: "?nt2 = getNotifiedGoalsToday clock1 ?st1"
      by (rule notified_same_day[OF assms(1)])
    from goalLoop_fired[OF d, of clock2 ?bd2 ?nt2 "(?st1, [])"]
    have d2: "distinct (map categoryName ?f2)"
      and unknown: "\<forall>g \<in> set ?f2. Some (categoryName g) \<notin> set ?nt2"
      unfolding r2[symmetric] by auto
    have disj: "categoryName ` set ?f1 \<inter> categoryName ` set ?f2 = {}"
    proof (rule ccontr)
      assume "categoryName ` set ?f1 \<inter> categoryName ` set ?f2 \<noteq> {}"
      then obtain n where "n \<in> categoryName ` set ?f1" "n \<in> categoryName ` set ?f2"
        by (meson disjoint_iff)
      then obtain g g' where g: "g \<in> set ?f2" "g' \<in> set ?f1" "categoryName g = categoryName g'"
        by (metis imageE)
      from g(2) marked have "Some (categoryName g') \<in> set (getNotifiedGoalsToday clock1 ?st1)"
        by blast
      with g(1) g(3) unknown show False unfolding nt2 by auto
    qed
    have second: "distinct (map categoryName (?f1 @ ?f2))"
      using d1 d2 disj by simp
    have third: "clock2 = clock1 \<and> db2 = db1 \<longrightarrow>
        shownBy (checkGoals clock2 db2 (settingsAfter (checkGoals clock1 db1 st))) = []"
    proof
      assume same: "clock2 = clock1 \<and> db2 = db1"
      have run1: "shownBy (goalLoop clock1 ?bd1 ?nt1 elements (st, [])) = snd (st, []) @ ?f1"
        by (simp add: r1)
      have sub: "set ?nt1 \<union> (\<lambda>g. Some (categoryName g)) ` set ?f1 \<subseteq> set ?nt2"
        using marked unfolding nt2 .
      have bd: "?bd2 = ?bd1" using same by simp
      from goalLoop_again[OF run1 sub, of clock2 "(?st1, [])"]
      have "shownBy (goalLoop clock2 ?bd1 ?nt2 elements (?st1, [])) = []" by simp
      then have "?f2 = []" unfolding r2 bd .
      then show "shownBy (checkGoals clock2 db2 (settingsAfter (checkGoals clock1 db1 st))) = []"
        by (simp add: shown2)
    qed
    from shown second third show ?thesis by (intro conjI)
  qed
qed

text \<open>
  A goal the code holds to be reached (target 0) on a day with 3,700,000 ms of
  \<open>development\<close>: the first call shows its notification, the second call on the same day
  shows nothing.
\<close>

theorem check_goals_twice_witness:
  "goalNames (goalSettings (map goalElement [\<lparr>categoryName = ''development'', targetMs = 0\<rparr>])) =
     [''development''] \<and>
   shownBy (checkGoals sampleClock (dayOf ''development'')
      (goalSettings (map goalElement [\<lparr>categoryName = ''development'', targetMs = 0\<rparr>]))) =
     [\<lparr>title = ''Goal reached!'', body = ''You hit your development goal of 0h.''\<rparr>] \<and>
   shownBy (checkGoals sampleClock (dayOf ''development'')
      (settingsAfter (checkGoals sampleClock (dayOf ''development'')
         (goalSettings (map goalElement [\<lparr>categoryName = ''development'', targetMs = 0\<rparr>]))))) =
     [] \<and>
   goals_notified_today
     (settingsAfter (checkGoals sampleClock (dayOf ''development'')
        (goalSettings (map goalElement [\<lparr>categoryName = ''development'', targetMs = 0\<rparr>])))) =
     Some (Parsed \<lparr>ledger_date = ''Mon Nov 02 2026'', ledger_goals = [Some ''development'']\<rparr>) \<and>
   distinct (map categoryName
     (shownBy (checkGoalsFired sampleClock (dayOf ''development'')
        (goalSettings (map goalElement [\<lparr>categoryName = ''development'', targetMs = 0\<rparr>]))) @
      shownBy (checkGoalsFired sampleClock (dayOf ''development'')
        (settingsAfter (checkGoalsFired sampleClock (dayOf ''development'')
           (goalSettings (map goalElement [\<lparr>categoryName = ''development'', targetMs = 0\<rparr>])))))))"
proof -
  define st where
    "st = goalSettings (map goalElement [\<lparr>categoryName = ''development'', targetMs = 0\<rparr>])"
  have h1: "isEnabled st"
    by (simp add: st_def goalSettings_def noSettings_def isEnabled_def)
  have h2: "daily_goals st =
      Some (Parsed (map goalElement [\<lparr>categoryName = ''development'', targetMs = 0\<rparr>]))"
    by (simp add: st_def goalSettings_def)
  have names: "goalNames st = [''development'']"
    by (simp add: st_def goalSettings_def goalNames_def goalElement_def elementName_def)
  have d: "distinct (goalNames st)"
    by (simp add: names)
  have nt: "getNotifiedGoalsToday sampleClock st = []"
    by (simp add: st_def goalSettings_def noSettings_def getNotifiedGoalsToday_def)
  have fired: "checkGoalsFired sampleClock (dayOf ''development'') st =
      Inr (markGoalNotified sampleClock (Some ''development'') st,
           [\<lparr>categoryName = ''development'', targetMs = 0\<rparr>])"
    unfolding checkGoalsFired_goals[OF h1 h2]
    by (simp add: goalFires_def currentMs_named nt)
  have shown: "shownBy (checkGoals sampleClock (dayOf ''development'') st) =
      [\<lparr>title = ''Goal reached!'', body = ''You hit your development goal of 0h.''\<rparr>]"
    unfolding checkGoals_shown fired
    by (simp add: shownBy_def goalNotification_def hoursText_zero underscoresToSpaces_def)
  have ledger: "goals_notified_today
      (settingsAfter (checkGoals sampleClock (dayOf ''development'') st)) =
      Some (Parsed \<lparr>ledger_date = ''Mon Nov 02 2026'', ledger_goals = [Some ''development'']\<rparr>)"
    unfolding checkGoals_settings fired
    by (simp add: settingsAfter_def markGoalNotified_def nt setAdd_def today_sampleClock)
  from check_goals_twice[OF refl d, of sampleClock "dayOf ''development''"
      "dayOf ''development''"]
  have "shownBy (checkGoals sampleClock (dayOf ''development'')
          (settingsAfter (checkGoals sampleClock (dayOf ''development'') st))) = []"
    and "distinct (map categoryName
     (shownBy (checkGoalsFired sampleClock (dayOf ''development'') st) @
      shownBy (checkGoalsFired sampleClock (dayOf ''development'')
        (settingsAfter (checkGoalsFired sampleClock (dayOf ''development'') st)))))"
    by blast+
  with names shown ledger show ?thesis
    unfolding st_def by (intro conjI)
qed

subsection \<open>The daily summary, with enough tracked\<close>




end
